theory Spec2Isabelle
  imports Complex_Main
begin

section \<open>Values, errors and parameter groups\<close>

text \<open>
  The module \<^verbatim>\<open>oeciml/torchmodules/optimizer.py\<close> wraps a numerical optimizer and
  drives per-group schedule objects. Python numbers are modelled by exact reals (rounding
  of floating point is not modelled), the step counters by unbounded integers, and every
  exception the code can raise by a value of \<open>py_error\<close>; a call that raises returns
  \<open>Inl\<close> of the error and no state. What a raising call had already changed is therefore
  not modelled: a \<^verbatim>\<open>step\<close> that finds \<^verbatim>\<open>max_value\<close> unset stores the value it reads from
  the group before its division can raise. A raising \<^verbatim>\<open>step\<close> has not yet advanced the index
  nor written into the group.

  Schedules are mutable objects that several parameter groups may reference, so they live
  in a store, a total function from addresses to schedule objects, and a group refers to
  them by address.
\<close>

datatype py_error = KeyError | TypeError | AttributeError | ZeroDivisionError | ValueError

type_synonym addr = nat

datatype pyval = Num real | NoneV | Sched addr | SchedList "addr list"

type_synonym param_group = "string \<rightharpoonup> pyval"

text \<open>
  Modelled from the spec: the helpers \<^verbatim>\<open>get_deep_attr\<close> and \<^verbatim>\<open>set_deep_attr\<close> of
  \<^verbatim>\<open>helpers/attr.py\<close> are not part of the sources at hand. The spec describes them as
  get and set of a named field of a group by its path; a path is modelled as one key of
  the group, and reading a missing field fails.
\<close>

definition get_deep_attr :: "param_group \<Rightarrow> string \<Rightarrow> py_error + pyval" where
  "get_deep_attr grp path' = (case grp path' of None \<Rightarrow> Inl KeyError | Some v \<Rightarrow> Inr v)"

definition set_deep_attr :: "param_group \<Rightarrow> string \<Rightarrow> pyval \<Rightarrow> param_group" where
  "set_deep_attr grp path' v = grp(path' \<mapsto> v)"

text \<open>Python's true division raises on a zero divisor; so does the remainder.\<close>

definition py_div :: "real \<Rightarrow> real \<Rightarrow> py_error + real" where
  "py_div a b = (if b = 0 then Inl ZeroDivisionError else Inr (a / b))"

definition py_mod :: "int \<Rightarrow> int \<Rightarrow> py_error + int" where
  "py_mod a b = (if b = 0 then Inl ZeroDivisionError else Inr (a mod b))"

text \<open>Arithmetic on a value that is not a number raises a type error.\<close>

definition as_num :: "pyval \<Rightarrow> py_error + real" where
  "as_num v = (case v of Num r \<Rightarrow> Inr r | _ \<Rightarrow> Inl TypeError)"

section \<open>The two schedules\<close>

record LinearSchedule =
  path :: string
  start_value :: real
  max_value :: pyval
  warmup :: bool
  warmup_rate :: real
  total_steps :: real
  idx :: int

record CyclicalLinearSchedule =
  path :: string
  max_value :: pyval
  min_value :: real
  epochs_per_cycle :: int
  steps_per_epoch :: int
  num_epoch :: int
  idx :: int

text \<open>
  The constructors; a primed name is the constructor's argument of that name. Python's
  default arguments are passed by the caller.
\<close>

definition LinearSchedule_init ::
  "real \<Rightarrow> pyval \<Rightarrow> real \<Rightarrow> string \<Rightarrow> bool \<Rightarrow> real \<Rightarrow> LinearSchedule" where
  "LinearSchedule_init total_steps' max_value' start_value' path' warmup' warmup_rate' =
     \<lparr> LinearSchedule.path = path',
       start_value = start_value',
       LinearSchedule.max_value = max_value',
       warmup = warmup',
       warmup_rate = warmup_rate',
       total_steps = total_steps',
       LinearSchedule.idx = 0 \<rparr>"

definition CyclicalLinearSchedule_init ::
  "int \<Rightarrow> pyval \<Rightarrow> real \<Rightarrow> int \<Rightarrow> string \<Rightarrow> CyclicalLinearSchedule" where
  "CyclicalLinearSchedule_init steps_per_epoch' max_value' min_value' epochs_per_cycle' path' =
     \<lparr> CyclicalLinearSchedule.path = path',
       CyclicalLinearSchedule.max_value = max_value',
       min_value = min_value',
       epochs_per_cycle = epochs_per_cycle',
       steps_per_epoch = steps_per_epoch',
       num_epoch = 0,
       CyclicalLinearSchedule.idx = 0 \<rparr>"

text \<open>The persisted state of a schedule is a dictionary; both classes store one key.\<close>

type_synonym schedule_state = "string \<rightharpoonup> int"

definition LinearSchedule_state_dict :: "LinearSchedule \<Rightarrow> schedule_state" where
  "LinearSchedule_state_dict self = [''idx'' \<mapsto> LinearSchedule.idx self]"

definition LinearSchedule_load_state_dict ::
  "LinearSchedule \<Rightarrow> schedule_state \<Rightarrow> py_error + LinearSchedule" where
  "LinearSchedule_load_state_dict self state =
     (case state ''idx'' of
        None \<Rightarrow> Inl KeyError
      | Some i \<Rightarrow> Inr (self\<lparr>LinearSchedule.idx := i\<rparr>))"

definition CyclicalLinearSchedule_state_dict :: "CyclicalLinearSchedule \<Rightarrow> schedule_state" where
  "CyclicalLinearSchedule_state_dict self = [''idx'' \<mapsto> CyclicalLinearSchedule.idx self]"

definition CyclicalLinearSchedule_load_state_dict ::
  "CyclicalLinearSchedule \<Rightarrow> schedule_state \<Rightarrow> py_error + CyclicalLinearSchedule" where
  "CyclicalLinearSchedule_load_state_dict self state =
     (case state ''idx'' of
        None \<Rightarrow> Inl KeyError
      | Some i \<Rightarrow> Inr (self\<lparr>CyclicalLinearSchedule.idx := i\<rparr>))"

text \<open>
  Both \<^verbatim>\<open>step\<close> methods start with the same two lines: an unset \<^verbatim>\<open>max_value\<close> is read
  from the group's target field and kept.
\<close>

definition resolve_max_value :: "pyval \<Rightarrow> param_group \<Rightarrow> string \<Rightarrow> py_error + pyval" where
  "resolve_max_value max_value' grp path' =
     (if max_value' = NoneV then get_deep_attr grp path' else Inr max_value')"

text \<open>
  \<^verbatim>\<open>LinearSchedule.step\<close>. In either branch the quotient \<^verbatim>\<open>progress\<close> is computed
  before \<^verbatim>\<open>max_value\<close> enters the arithmetic, so a zero divisor is reported before a
  \<^verbatim>\<open>max_value\<close> that is not a number.
\<close>

definition LinearSchedule_step ::
  "LinearSchedule \<Rightarrow> param_group \<Rightarrow> py_error + (LinearSchedule \<times> param_group)" where
  "LinearSchedule_step self grp =
     (case resolve_max_value (LinearSchedule.max_value self) grp (LinearSchedule.path self) of
        Inl e \<Rightarrow> Inl e
      | Inr mv \<Rightarrow>
          (let warmup_steps = total_steps self * warmup_rate self in
           case (if real_of_int (LinearSchedule.idx self) < warmup_steps then
                   (case py_div (real_of_int (LinearSchedule.idx self)) warmup_steps of
                      Inl e \<Rightarrow> Inl e
                    | Inr progress \<Rightarrow>
                        (case as_num mv of
                           Inl e \<Rightarrow> Inl e
                         | Inr m \<Rightarrow> Inr (start_value self + (m - start_value self) * progress)))
                 else
                   (case py_div (real_of_int (LinearSchedule.idx self) - warmup_steps)
                                (total_steps self - warmup_steps) of
                      Inl e \<Rightarrow> Inl e
                    | Inr progress \<Rightarrow>
                        (case as_num mv of
                           Inl e \<Rightarrow> Inl e
                         | Inr m \<Rightarrow> Inr (m + (0 - m) * progress)))) of
             Inl e \<Rightarrow> Inl e
           | Inr v \<Rightarrow>
               Inr (self\<lparr>LinearSchedule.max_value := mv,
                         LinearSchedule.idx := LinearSchedule.idx self + 1\<rparr>,
                    set_deep_attr grp (LinearSchedule.path self) (Num v))))"

text \<open>
  \<^verbatim>\<open>CyclicalLinearSchedule.step\<close>. The value is computed from \<^verbatim>\<open>num_epoch\<close> as it is
  before the call; the epoch counter is advanced afterwards, by at most one. The notice
  printed when the epoch advances is not modelled.
\<close>

definition CyclicalLinearSchedule_step ::
  "CyclicalLinearSchedule \<Rightarrow> param_group
     \<Rightarrow> py_error + (CyclicalLinearSchedule \<times> param_group)" where
  "CyclicalLinearSchedule_step self grp =
     (case resolve_max_value (CyclicalLinearSchedule.max_value self) grp
             (CyclicalLinearSchedule.path self) of
        Inl e \<Rightarrow> Inl e
      | Inr mv \<Rightarrow>
          (case as_num mv of
             Inl e \<Rightarrow> Inl e
           | Inr m \<Rightarrow>
               (case py_div (m - min_value self) (real_of_int (epochs_per_cycle self - 1)) of
                  Inl e \<Rightarrow> Inl e
                | Inr slope \<Rightarrow>
                    (case py_mod (num_epoch self) (epochs_per_cycle self) of
                       Inl e \<Rightarrow> Inl e
                     | Inr cycle_position \<Rightarrow>
                         (let v = m - slope * real_of_int cycle_position;
                              num_epoch' =
                                (if CyclicalLinearSchedule.idx self
                                      > (num_epoch self + 1) * steps_per_epoch self
                                 then num_epoch self + 1 else num_epoch self)
                          in Inr (self\<lparr>CyclicalLinearSchedule.max_value := mv,
                                       num_epoch := num_epoch',
                                       CyclicalLinearSchedule.idx :=
                                         CyclicalLinearSchedule.idx self + 1\<rparr>,
                                  set_deep_attr grp (CyclicalLinearSchedule.path self)
                                    (Num v)))))))"

text \<open>A schedule object is of one of the two classes; a method call dispatches on it.\<close>

datatype schedule = Linear LinearSchedule | Cyclical CyclicalLinearSchedule

fun schedule_step :: "schedule \<Rightarrow> param_group \<Rightarrow> py_error + (schedule \<times> param_group)" where
  "schedule_step (Linear s) grp =
     (case LinearSchedule_step s grp of
        Inl e \<Rightarrow> Inl e
      | Inr (s', grp') \<Rightarrow> Inr (Linear s', grp'))"
| "schedule_step (Cyclical s) grp =
     (case CyclicalLinearSchedule_step s grp of
        Inl e \<Rightarrow> Inl e
      | Inr (s', grp') \<Rightarrow> Inr (Cyclical s', grp'))"

fun schedule_state_dict :: "schedule \<Rightarrow> schedule_state" where
  "schedule_state_dict (Linear s) = LinearSchedule_state_dict s"
| "schedule_state_dict (Cyclical s) = CyclicalLinearSchedule_state_dict s"

fun schedule_load_state_dict :: "schedule \<Rightarrow> schedule_state \<Rightarrow> py_error + schedule" where
  "schedule_load_state_dict (Linear s) state =
     (case LinearSchedule_load_state_dict s state of
        Inl e \<Rightarrow> Inl e
      | Inr s' \<Rightarrow> Inr (Linear s'))"
| "schedule_load_state_dict (Cyclical s) state =
     (case CyclicalLinearSchedule_load_state_dict s state of
        Inl e \<Rightarrow> Inl e
      | Inr s' \<Rightarrow> Inr (Cyclical s'))"

section \<open>The inner optimizer\<close>

text \<open>
  Modelled from the spec: the inner optimizer is an external collaborator (an optimizer of
  the numerical library), not code of this module. The spec gives its capability set:
  \<^verbatim>\<open>param_groups\<close>, \<^verbatim>\<open>state\<close>, \<^verbatim>\<open>state_dict()\<close>, \<^verbatim>\<open>load_state_dict()\<close> and
  \<^verbatim>\<open>step(closure)\<close>. Its internal state is a type parameter. Its full state dict holds
  the internal state and a copy of every parameter group; restoring replaces the internal
  state and the group list by the saved ones, and refuses a saved list of another length.
  The parameters a group governs are opaque to this module and are left out of a group.
\<close>

record 'st optimizer =
  param_groups :: "param_group list"
  state :: 'st
  defaults :: param_group

record 'st optimizer_state =
  sd_state :: 'st
  sd_param_groups :: "param_group list"

definition optimizer_state_dict :: "'st optimizer \<Rightarrow> 'st optimizer_state" where
  "optimizer_state_dict opt = \<lparr> sd_state = state opt, sd_param_groups = param_groups opt \<rparr>"

definition optimizer_load_state_dict ::
  "'st optimizer \<Rightarrow> 'st optimizer_state \<Rightarrow> py_error + 'st optimizer" where
  "optimizer_load_state_dict opt sd =
     (if length (sd_param_groups sd) \<noteq> length (param_groups opt) then Inl ValueError
      else Inr (opt\<lparr>param_groups := sd_param_groups sd, state := sd_state sd\<rparr>))"

text \<open>
  The inner optimizer's \<^verbatim>\<open>step(closure)\<close> is a parameter of the model: a function from
  the optimizer and the closure to an error or to the value it returns (by convention the
  loss) and the updated optimizer.
\<close>

type_synonym ('st, 'c, 'r) optimizer_step =
  "'st optimizer \<Rightarrow> 'c \<Rightarrow> py_error + ('r \<times> 'st optimizer)"

section \<open>The scheduled optimizer\<close>

record 'st ScheduledOptimizer =
  optim :: "'st optimizer"
  defaults :: param_group

type_synonym heap = "addr \<Rightarrow> schedule"

text \<open>
  The loop \<^verbatim>\<open>for schedule in group["schedules"]: schedule.step(group)\<close>, over the list
  object the loop started with.
\<close>

fun step_schedules :: "addr list \<Rightarrow> param_group \<Rightarrow> heap \<Rightarrow> py_error + (param_group \<times> heap)" where
  "step_schedules [] grp h = Inr (grp, h)"
| "step_schedules (a # as) grp h =
     (case schedule_step (h a) grp of
        Inl e \<Rightarrow> Inl e
      | Inr (s', grp') \<Rightarrow> step_schedules as grp' (h(a := s')))"

text \<open>A loop over the parameter groups whose body may change the group and the store.\<close>

fun for_groups ::
  "(param_group \<Rightarrow> heap \<Rightarrow> py_error + (param_group \<times> heap)) \<Rightarrow> param_group list \<Rightarrow> heap
     \<Rightarrow> py_error + (param_group list \<times> heap)" where
  "for_groups body [] h = Inr ([], h)"
| "for_groups body (grp # grps) h =
     (case body grp h of
        Inl e \<Rightarrow> Inl e
      | Inr (grp', h') \<Rightarrow>
          (case for_groups body grps h' of
             Inl e \<Rightarrow> Inl e
           | Inr (grps', h'') \<Rightarrow> Inr (grp' # grps', h'')))"

text \<open>
  The body of the constructor's loop. A value that is not a list is wrapped into a list
  of one; calling \<^verbatim>\<open>step\<close> on an element that is not a schedule raises.
\<close>

definition init_group :: "param_group \<Rightarrow> heap \<Rightarrow> py_error + (param_group \<times> heap)" where
  "init_group grp h =
     (case grp ''schedules'' of
        None \<Rightarrow> Inr (grp, h)
      | Some (SchedList as) \<Rightarrow> step_schedules as (grp(''schedules'' \<mapsto> SchedList as)) h
      | Some (Sched a) \<Rightarrow> step_schedules [a] (grp(''schedules'' \<mapsto> SchedList [a])) h
      | Some _ \<Rightarrow> Inl AttributeError)"

definition ScheduledOptimizer_init ::
  "'st optimizer \<Rightarrow> heap \<Rightarrow> py_error + ('st ScheduledOptimizer \<times> heap)" where
  "ScheduledOptimizer_init optim' h =
     (case for_groups init_group (param_groups optim') h of
        Inl e \<Rightarrow> Inl e
      | Inr (grps, h') \<Rightarrow>
          Inr (\<lparr> optim = optim'\<lparr>param_groups := grps\<rparr>,
                 ScheduledOptimizer.defaults = optimizer.defaults optim' \<rparr>, h'))"

text \<open>The body of the loop of \<^verbatim>\<open>step\<close>; iterating a value that is not a list raises.\<close>

definition step_group :: "param_group \<Rightarrow> heap \<Rightarrow> py_error + (param_group \<times> heap)" where
  "step_group grp h =
     (case grp ''schedules'' of
        None \<Rightarrow> Inr (grp, h)
      | Some (SchedList as) \<Rightarrow> step_schedules as grp h
      | Some _ \<Rightarrow> Inl TypeError)"

text \<open>
  \<^verbatim>\<open>ScheduledOptimizer.step\<close>. The first component of the result is the value the method
  returns to its caller: the method has no \<^verbatim>\<open>return\<close> statement, so it is Python's
  \<^verbatim>\<open>None\<close>, here \<open>None\<close>.
\<close>

definition ScheduledOptimizer_step ::
  "('st, 'c, 'r) optimizer_step \<Rightarrow> 'st ScheduledOptimizer \<Rightarrow> 'c \<Rightarrow> heap
     \<Rightarrow> py_error + ('r option \<times> 'st ScheduledOptimizer \<times> heap)" where
  "ScheduledOptimizer_step optim_step self closure h =
     (case optim_step (optim self) closure of
        Inl e \<Rightarrow> Inl e
      | Inr (loss, optim') \<Rightarrow>
          (case for_groups step_group (param_groups optim') h of
             Inl e \<Rightarrow> Inl e
           | Inr (grps, h') \<Rightarrow>
               Inr (None, self\<lparr>optim := optim'\<lparr>param_groups := grps\<rparr>\<rparr>, h')))"

text \<open>A list comprehension whose element expression may raise.\<close>

fun collect :: "('a \<Rightarrow> py_error + 'b) \<Rightarrow> 'a list \<Rightarrow> py_error + 'b list" where
  "collect f [] = Inr []"
| "collect f (x # xs) =
     (case f x of
        Inl e \<Rightarrow> Inl e
      | Inr y \<Rightarrow> (case collect f xs of Inl e \<Rightarrow> Inl e | Inr ys \<Rightarrow> Inr (y # ys)))"

text \<open>
  The composite state is a dictionary; its values are the inner optimizer's state dict, a
  list of field values, or the schedule states of every group.
\<close>

datatype 'st state_value =
    OptimState "'st optimizer_state"
  | LrList "pyval list"
  | ScheduleStates "schedule_state list list"

type_synonym 'st wrapper_state = "string \<rightharpoonup> 'st state_value"

text \<open>\<^verbatim>\<open>group.get("lr")\<close>: a missing key reads as \<^verbatim>\<open>None\<close>.\<close>

definition get_lr :: "param_group \<Rightarrow> pyval" where
  "get_lr grp = (case grp ''lr'' of None \<Rightarrow> NoneV | Some v \<Rightarrow> v)"

text \<open>
  \<^verbatim>\<open>[schedule.state_dict() for schedule in group.get("schedules")]\<close>: iterating
  \<^verbatim>\<open>None\<close>, or any value that is not a list, raises.
\<close>

definition group_schedule_states :: "heap \<Rightarrow> param_group \<Rightarrow> py_error + schedule_state list" where
  "group_schedule_states h grp =
     (case grp ''schedules'' of
        Some (SchedList as) \<Rightarrow> Inr (map (\<lambda>a. schedule_state_dict (h a)) as)
      | _ \<Rightarrow> Inl TypeError)"

text \<open>\<^verbatim>\<open>del group["schedules"]\<close> on a copy of a group.\<close>

definition del_schedules :: "param_group \<Rightarrow> py_error + param_group" where
  "del_schedules grp =
     (if grp ''schedules'' = None then Inl KeyError else Inr (grp(''schedules'' := None)))"

definition ScheduledOptimizer_state_dict ::
  "'st ScheduledOptimizer \<Rightarrow> heap \<Rightarrow> py_error + 'st wrapper_state" where
  "ScheduledOptimizer_state_dict self h =
     (let optim_state = optimizer_state_dict (optim self);
          lr = map get_lr (param_groups (optim self))
      in case collect (group_schedule_states h) (param_groups (optim self)) of
           Inl e \<Rightarrow> Inl e
         | Inr schedules \<Rightarrow>
             (case collect del_schedules (sd_param_groups optim_state) of
                Inl e \<Rightarrow> Inl e
              | Inr grps \<Rightarrow>
                  Inr [''optim'' \<mapsto> OptimState (optim_state\<lparr>sd_param_groups := grps\<rparr>),
                       ''lr'' \<mapsto> LrList lr,
                       ''schedules'' \<mapsto> ScheduleStates schedules]))"

text \<open>
  The inner loop of \<^verbatim>\<open>load_state_dict\<close>: \<^verbatim>\<open>zip\<close> stops at the shorter of the attached
  schedules and the saved states.
\<close>

fun load_schedules :: "addr list \<Rightarrow> schedule_state list \<Rightarrow> heap \<Rightarrow> py_error + heap" where
  "load_schedules (a # as) (st # sts) h =
     (case schedule_load_state_dict (h a) st of
        Inl e \<Rightarrow> Inl e
      | Inr s' \<Rightarrow> load_schedules as sts (h(a := s')))"
| "load_schedules _ _ h = Inr h"

definition restore_group ::
  "param_group \<Rightarrow> pyval \<Rightarrow> schedule_state list \<Rightarrow> pyval \<Rightarrow> heap
     \<Rightarrow> py_error + (param_group \<times> heap)" where
  "restore_group grp group_schedule group_schedules_state lr h =
     (case group_schedule of
        SchedList as \<Rightarrow>
          (case load_schedules as group_schedules_state h of
             Inl e \<Rightarrow> Inl e
           | Inr h' \<Rightarrow> Inr (grp(''schedules'' \<mapsto> group_schedule, ''lr'' \<mapsto> lr), h'))
      | _ \<Rightarrow> Inl TypeError)"

text \<open>
  The outer loop over the four zipped lists; groups beyond the shortest list are left as
  the inner restore made them.
\<close>

fun restore_groups ::
  "param_group list \<Rightarrow> pyval list \<Rightarrow> schedule_state list list \<Rightarrow> pyval list \<Rightarrow> heap
     \<Rightarrow> py_error + (param_group list \<times> heap)" where
  "restore_groups (grp # grps) (sch # schs) (st # sts) (lr # lrs) h =
     (case restore_group grp sch st lr h of
        Inl e \<Rightarrow> Inl e
      | Inr (grp', h') \<Rightarrow>
          (case restore_groups grps schs sts lrs h' of
             Inl e \<Rightarrow> Inl e
           | Inr (grps', h'') \<Rightarrow> Inr (grp' # grps', h'')))"
| "restore_groups grps _ _ _ h = Inr (grps, h)"

text \<open>\<^verbatim>\<open>group["schedules"]\<close> for every group: a missing key raises.\<close>

definition get_schedules :: "param_group \<Rightarrow> py_error + pyval" where
  "get_schedules grp = (case grp ''schedules'' of None \<Rightarrow> Inl KeyError | Some v \<Rightarrow> Inr v)"

definition ScheduledOptimizer_load_state_dict ::
  "'st ScheduledOptimizer \<Rightarrow> 'st wrapper_state \<Rightarrow> heap
     \<Rightarrow> py_error + ('st ScheduledOptimizer \<times> heap)" where
  "ScheduledOptimizer_load_state_dict self state' h =
     (case collect get_schedules (param_groups (optim self)) of
        Inl e \<Rightarrow> Inl e
      | Inr optim_schedules \<Rightarrow>
          (case state' ''optim'' of
             None \<Rightarrow> Inl KeyError
           | Some (OptimState optim_state) \<Rightarrow>
               (case optimizer_load_state_dict (optim self) optim_state of
                  Inl e \<Rightarrow> Inl e
                | Inr optim' \<Rightarrow>
                    (case state' ''schedules'' of
                       None \<Rightarrow> Inl KeyError
                     | Some (ScheduleStates schedules_state) \<Rightarrow>
                         (case state' ''lr'' of
                            None \<Rightarrow> Inl KeyError
                          | Some (LrList lrs) \<Rightarrow>
                              (case restore_groups (param_groups optim') optim_schedules
                                      schedules_state lrs h of
                                 Inl e \<Rightarrow> Inl e
                               | Inr (grps, h') \<Rightarrow>
                                   Inr (self\<lparr>optim := optim'\<lparr>param_groups := grps\<rparr>\<rparr>, h'))
                          | Some _ \<Rightarrow> Inl TypeError)
                     | Some _ \<Rightarrow> Inl TypeError))
           | Some _ \<Rightarrow> Inl TypeError))"

text \<open>A training run: one call of \<^verbatim>\<open>step\<close> per closure, stopping at the first error.\<close>

fun run_steps ::
  "('st, 'c, 'r) optimizer_step \<Rightarrow> 'c list \<Rightarrow> 'st ScheduledOptimizer \<Rightarrow> heap
     \<Rightarrow> py_error + ('st ScheduledOptimizer \<times> heap)" where
  "run_steps optim_step [] self h = Inr (self, h)"
| "run_steps optim_step (closure # closures) self h =
     (case ScheduledOptimizer_step optim_step self closure h of
        Inl e \<Rightarrow> Inl e
      | Inr (r, self', h') \<Rightarrow> run_steps optim_step closures self' h')"

section \<open>Observations and example configurations\<close>

text \<open>
  The schedules attached to a group, in attachment order: a list as it is, a single
  schedule as a list of one, anything else as no schedule.
\<close>

definition schedules_of :: "pyval \<Rightarrow> addr list" where
  "schedules_of v = (case v of SchedList as \<Rightarrow> as | Sched a \<Rightarrow> [a] | _ \<Rightarrow> [])"

definition group_schedules :: "param_group \<Rightarrow> addr list" where
  "group_schedules grp = (case grp ''schedules'' of None \<Rightarrow> [] | Some v \<Rightarrow> schedules_of v)"

text \<open>
  A linear schedule over ten steps with five warmup steps, whose \<^verbatim>\<open>max_value\<close> is left
  unset; a store holding it at every address; a group of learning rate 2 carrying the
  schedule at address 0; an inner optimizer over that group whose \<^verbatim>\<open>step\<close> returns the
  closure's value as the loss.
\<close>

definition example_linear :: LinearSchedule where
  "example_linear = LinearSchedule_init 10 NoneV 0 ''lr'' True (1 / 2)"

definition example_heap :: heap where
  "example_heap = (\<lambda>a. Linear example_linear)"

definition example_group :: param_group where
  "example_group = [''lr'' \<mapsto> Num 2, ''schedules'' \<mapsto> Sched 0]"

definition example_optimizer :: "unit optimizer" where
  "example_optimizer =
     \<lparr> param_groups = [example_group], state = (), optimizer.defaults = Map.empty \<rparr>"

definition example_optim_step :: "(unit, real, real) optimizer_step" where
  "example_optim_step opt closure = Inr (closure, opt)"

text \<open>An inner optimizer whose only group carries no schedule.\<close>

definition example_plain_optimizer :: "unit optimizer" where
  "example_plain_optimizer =
     \<lparr> param_groups = [[''lr'' \<mapsto> Num 2]], state = (), optimizer.defaults = Map.empty \<rparr>"

text \<open>
  The schedules attached to the groups of a list, group after group; the step index of a
  schedule object; a schedule object with its index replaced; and the two facts about a
  schedule object that the round trip of the state rests on: it is a linear schedule, and
  it is a linear schedule whose \<^verbatim>\<open>max_value\<close> is a number.
\<close>

definition attached :: "param_group list \<Rightarrow> addr list" where
  "attached grps = concat (map group_schedules grps)"

fun schedule_idx :: "schedule \<Rightarrow> int" where
  "schedule_idx (Linear s) = LinearSchedule.idx s"
| "schedule_idx (Cyclical s) = CyclicalLinearSchedule.idx s"

fun with_idx :: "schedule \<Rightarrow> int \<Rightarrow> schedule" where
  "with_idx (Linear s) i = Linear (s\<lparr>LinearSchedule.idx := i\<rparr>)"
| "with_idx (Cyclical s) i = Cyclical (s\<lparr>CyclicalLinearSchedule.idx := i\<rparr>)"

fun is_linear :: "schedule \<Rightarrow> bool" where
  "is_linear (Linear s) = True"
| "is_linear (Cyclical s) = False"

fun resolved :: "schedule \<Rightarrow> bool" where
  "resolved (Linear s) = (case LinearSchedule.max_value s of Num m \<Rightarrow> True | _ \<Rightarrow> False)"
| "resolved (Cyclical s) = False"

text \<open>
  Modelled from the spec: the inner optimizer's \<^verbatim>\<open>step\<close> is external code that knows
  nothing of schedules. The assumption under which the round trip of the state is proved
  is that a returning inner step leaves the \<^verbatim>\<open>schedules\<close> entry of every group, the
  number of groups, and the defaults as they are; it may change everything else.
\<close>

definition keeps_attachments :: "('st, 'c, 'r) optimizer_step \<Rightarrow> bool" where
  "keeps_attachments optim_step =
     (\<forall>opt closure r opt'. optim_step opt closure = Inr (r, opt') \<longrightarrow>
        map (\<lambda>g. g ''schedules'') (param_groups opt') = map (\<lambda>g. g ''schedules'') (param_groups opt)
        \<and> optimizer.defaults opt' = optimizer.defaults opt)"

text \<open>Every schedule in the list of a group has its \<^verbatim>\<open>max_value\<close> resolved.\<close>

definition stepped_resolved :: "param_group list \<Rightarrow> heap \<Rightarrow> bool" where
  "stepped_resolved grps h =
     (\<forall>g\<in>set grps. \<forall>as. g ''schedules'' = Some (SchedList as) \<longrightarrow> (\<forall>a\<in>set as. resolved (h a)))"

text \<open>An inner optimizer whose two groups carry the same schedule object.\<close>

definition example_shared_optimizer :: "unit optimizer" where
  "example_shared_optimizer =
     \<lparr> param_groups = [example_group, example_group], state = (),
       optimizer.defaults = Map.empty \<rparr>"

text \<open>
  A group that has no \<^verbatim>\<open>lr\<close> entry: its schedule drives the field \<^verbatim>\<open>momentum\<close>. The
  inner optimizer over it, and an inner \<^verbatim>\<open>step\<close> that reads the learning rate of every
  group with a default for a missing key (\<^verbatim>\<open>group.get("lr", default)\<close>) and computes with
  it, so that an entry \<^verbatim>\<open>None\<close> raises a type error; it changes nothing.
\<close>

definition example_momentum_linear :: LinearSchedule where
  "example_momentum_linear = LinearSchedule_init 10 NoneV 0 ''momentum'' True (1 / 2)"

definition example_momentum_heap :: heap where
  "example_momentum_heap = (\<lambda>a. Linear example_momentum_linear)"

definition example_momentum_optimizer :: "unit optimizer" where
  "example_momentum_optimizer =
     \<lparr> param_groups = [[''momentum'' \<mapsto> Num 2, ''schedules'' \<mapsto> Sched 0]], state = (),
       optimizer.defaults = Map.empty \<rparr>"

definition example_lr_step :: "(unit, real, real) optimizer_step" where
  "example_lr_step opt closure =
     (if list_ex (\<lambda>g. g ''lr'' = Some NoneV) (param_groups opt) then Inl TypeError
      else Inr (closure, opt))"

section \<open>The schedules: lemmas\<close>

lemma LinearSchedule_step_warmup:
  assumes "resolve_max_value (LinearSchedule.max_value s) g (LinearSchedule.path s) = Inr (Num m)"
      and "real_of_int (LinearSchedule.idx s) < total_steps s * warmup_rate s"
  shows "LinearSchedule_step s g =
           (if total_steps s * warmup_rate s = 0 then Inl ZeroDivisionError
            else Inr (s\<lparr>LinearSchedule.max_value := Num m,
                         LinearSchedule.idx := LinearSchedule.idx s + 1\<rparr>,
                      g(LinearSchedule.path s \<mapsto>
                          Num (start_value s + (m - start_value s) *
                                 (real_of_int (LinearSchedule.idx s)
                                    / (total_steps s * warmup_rate s))))))"
  using assms
  by (simp add: LinearSchedule_step_def Let_def py_div_def as_num_def set_deep_attr_def)

lemma LinearSchedule_step_decay:
  assumes "resolve_max_value (LinearSchedule.max_value s) g (LinearSchedule.path s) = Inr (Num m)"
      and "\<not> real_of_int (LinearSchedule.idx s) < total_steps s * warmup_rate s"
  shows "LinearSchedule_step s g =
           (if total_steps s - total_steps s * warmup_rate s = 0 then Inl ZeroDivisionError
            else Inr (s\<lparr>LinearSchedule.max_value := Num m,
                         LinearSchedule.idx := LinearSchedule.idx s + 1\<rparr>,
                      g(LinearSchedule.path s \<mapsto>
                          Num (m + (0 - m) *
                                 ((real_of_int (LinearSchedule.idx s) - total_steps s * warmup_rate s)
                                    / (total_steps s - total_steps s * warmup_rate s))))))"
  using assms
  by (simp add: LinearSchedule_step_def Let_def py_div_def as_num_def set_deep_attr_def)

lemma resolve_max_value_Num [simp]: "resolve_max_value (Num m) g p = Inr (Num m)"
  by (simp add: resolve_max_value_def)

lemma ramp_mono:
  fixes a m w :: real
  assumes "a \<le> m" "0 < w" "x \<le> y"
  shows "a + (m - a) * (x / w) \<le> a + (m - a) * (y / w)"
proof -
  have "x / w \<le> y / w" using assms by (simp add: divide_right_mono)
  then have "(m - a) * (x / w) \<le> (m - a) * (y / w)"
    using assms by (intro mult_left_mono) auto
  then show ?thesis by simp
qed

lemma ramp_bounds:
  fixes a m w :: real
  assumes "a \<le> m" "0 < w" "0 \<le> x" "x < w"
  shows "a \<le> a + (m - a) * (x / w)" and "a + (m - a) * (x / w) \<le> m"
proof -
  have q0: "0 \<le> x / w" using assms by simp
  have q1: "x / w \<le> 1" using assms by simp
  show "a \<le> a + (m - a) * (x / w)" using assms q0 by simp
  have "(m - a) * (x / w) \<le> (m - a) * 1"
    using assms q1 by (intro mult_left_mono) auto
  then show "a + (m - a) * (x / w) \<le> m" by simp
qed



lemma LinearSchedule_step_error:
  "LinearSchedule_step s g = Inl ZeroDivisionError \<Longrightarrow>
     (real_of_int (LinearSchedule.idx s) < total_steps s * warmup_rate s
        \<and> total_steps s * warmup_rate s = 0)
   \<or> (\<not> real_of_int (LinearSchedule.idx s) < total_steps s * warmup_rate s
        \<and> total_steps s - total_steps s * warmup_rate s = 0)"
  by (auto simp: LinearSchedule_step_def Let_def py_div_def as_num_def resolve_max_value_def
        get_deep_attr_def split: sum.splits if_splits option.splits pyval.splits)


section \<open>The linear schedule\<close>

text \<open>
  Claim C1, as the code has it. A call of \<^verbatim>\<open>LinearSchedule.step\<close> whose index is below
  \<^verbatim>\<open>warmup_steps = total_steps * warmup_rate\<close>, with \<^verbatim>\<open>max_value\<close> resolved to the number
  \<open>m\<close>, writes \<^verbatim>\<open>start_value + (m - start_value) * (idx / warmup_steps)\<close> into the target
  field and advances the index by one; the only exception is \<^verbatim>\<open>warmup_steps = 0\<close>, which
  needs a negative index, where the call raises a division by zero. At index 0 the value
  written is \<^verbatim>\<open>start_value\<close>. When \<^verbatim>\<open>start_value \<le> m\<close>, the value written at a
  non-negative index lies between \<^verbatim>\<open>start_value\<close> and \<open>m\<close> and is at most the value
  written at any later index of the warmup range.
\<close>

theorem linear_warmup_ramp:
  fixes s :: LinearSchedule and g g' :: param_group
  assumes res: "resolve_max_value (LinearSchedule.max_value s) g (LinearSchedule.path s)
                  = Inr (Num m)"
      and lt: "real_of_int (LinearSchedule.idx s) < total_steps s * warmup_rate s"
  shows "LinearSchedule_step s g =
           (if total_steps s * warmup_rate s = 0 then Inl ZeroDivisionError
            else Inr (s\<lparr>LinearSchedule.max_value := Num m,
                         LinearSchedule.idx := LinearSchedule.idx s + 1\<rparr>,
                      g(LinearSchedule.path s \<mapsto>
                          Num (start_value s + (m - start_value s) *
                                 (real_of_int (LinearSchedule.idx s)
                                    / (total_steps s * warmup_rate s))))))
         \<and> (LinearSchedule.idx s = 0 \<longrightarrow>
              LinearSchedule_step s g =
                Inr (s\<lparr>LinearSchedule.max_value := Num m, LinearSchedule.idx := 1\<rparr>,
                     g(LinearSchedule.path s \<mapsto> Num (start_value s))))
         \<and> (0 \<le> LinearSchedule.idx s \<and> start_value s \<le> m \<longrightarrow>
              (\<forall>j. LinearSchedule.idx s \<le> j \<and> real_of_int j < total_steps s * warmup_rate s \<longrightarrow>
                 (\<exists>v v'. LinearSchedule_step s g =
                            Inr (s\<lparr>LinearSchedule.max_value := Num m,
                                    LinearSchedule.idx := LinearSchedule.idx s + 1\<rparr>,
                                 g(LinearSchedule.path s \<mapsto> Num v))
                        \<and> LinearSchedule_step
                            (s\<lparr>LinearSchedule.max_value := Num m, LinearSchedule.idx := j\<rparr>) g' =
                            Inr (s\<lparr>LinearSchedule.max_value := Num m,
                                    LinearSchedule.idx := j + 1\<rparr>,
                                 g'(LinearSchedule.path s \<mapsto> Num v'))
                        \<and> start_value s \<le> v \<and> v \<le> v' \<and> v' \<le> m)))"
proof (intro conjI impI allI)
  show "LinearSchedule_step s g =
           (if total_steps s * warmup_rate s = 0 then Inl ZeroDivisionError
            else Inr (s\<lparr>LinearSchedule.max_value := Num m,
                         LinearSchedule.idx := LinearSchedule.idx s + 1\<rparr>,
                      g(LinearSchedule.path s \<mapsto>
                          Num (start_value s + (m - start_value s) *
                                 (real_of_int (LinearSchedule.idx s)
                                    / (total_steps s * warmup_rate s))))))"
    by (rule LinearSchedule_step_warmup [OF res lt])
next
  assume z: "LinearSchedule.idx s = 0"
  with lt have "0 < total_steps s * warmup_rate s" by simp
  then have "total_steps s * warmup_rate s \<noteq> 0" by linarith
  with z show "LinearSchedule_step s g =
                Inr (s\<lparr>LinearSchedule.max_value := Num m, LinearSchedule.idx := 1\<rparr>,
                     g(LinearSchedule.path s \<mapsto> Num (start_value s)))"
    using LinearSchedule_step_warmup [OF res lt] by simp
next
  fix j
  assume a: "0 \<le> LinearSchedule.idx s \<and> start_value s \<le> m"
     and b: "LinearSchedule.idx s \<le> j \<and> real_of_int j < total_steps s * warmup_rate s"
  let ?w = "total_steps s * warmup_rate s"
  let ?sj = "s\<lparr>LinearSchedule.max_value := Num m, LinearSchedule.idx := j\<rparr>"
  from a lt have w: "0 < ?w" by linarith
  then have nz: "?w \<noteq> 0" by linarith
  have resj: "resolve_max_value (LinearSchedule.max_value ?sj) g' (LinearSchedule.path ?sj)
                = Inr (Num m)" by simp
  have ltj: "real_of_int (LinearSchedule.idx ?sj) < total_steps ?sj * warmup_rate ?sj"
    using b by simp
  have 1: "LinearSchedule_step s g =
             Inr (s\<lparr>LinearSchedule.max_value := Num m,
                     LinearSchedule.idx := LinearSchedule.idx s + 1\<rparr>,
                  g(LinearSchedule.path s \<mapsto>
                      Num (start_value s + (m - start_value s) *
                             (real_of_int (LinearSchedule.idx s) / ?w))))"
    using LinearSchedule_step_warmup [OF res lt] nz by simp
  have 2: "LinearSchedule_step ?sj g' =
             Inr (s\<lparr>LinearSchedule.max_value := Num m, LinearSchedule.idx := j + 1\<rparr>,
                  g'(LinearSchedule.path s \<mapsto>
                      Num (start_value s + (m - start_value s) * (real_of_int j / ?w))))"
    using LinearSchedule_step_warmup [OF resj ltj] nz by simp
  have 3: "start_value s \<le> start_value s + (m - start_value s) *
             (real_of_int (LinearSchedule.idx s) / ?w)"
    using ramp_bounds(1) [of "start_value s" m ?w "real_of_int (LinearSchedule.idx s)"] a w lt
    by simp
  have 4: "start_value s + (m - start_value s) * (real_of_int (LinearSchedule.idx s) / ?w)
             \<le> start_value s + (m - start_value s) * (real_of_int j / ?w)"
    using ramp_mono [of "start_value s" m ?w "real_of_int (LinearSchedule.idx s)" "real_of_int j"]
      a b w by simp
  have 5: "start_value s + (m - start_value s) * (real_of_int j / ?w) \<le> m"
    using ramp_bounds(2) [of "start_value s" m ?w "real_of_int j"] a b w by simp
  from 1 2 3 4 5
  show "\<exists>v v'. LinearSchedule_step s g =
                            Inr (s\<lparr>LinearSchedule.max_value := Num m,
                                    LinearSchedule.idx := LinearSchedule.idx s + 1\<rparr>,
                                 g(LinearSchedule.path s \<mapsto> Num v))
                        \<and> LinearSchedule_step
                            (s\<lparr>LinearSchedule.max_value := Num m, LinearSchedule.idx := j\<rparr>) g' =
                            Inr (s\<lparr>LinearSchedule.max_value := Num m,
                                    LinearSchedule.idx := j + 1\<rparr>,
                                 g'(LinearSchedule.path s \<mapsto> Num v'))
                        \<and> start_value s \<le> v \<and> v \<le> v' \<and> v' \<le> m"
    by blast
qed

text \<open>
  The example schedule at index 0 writes its start value 0, at index 3 it writes 6/5, and
  both lie between the start value and the resolved maximum 2.
\<close>

theorem linear_warmup_ramp_witness:
  "resolve_max_value (LinearSchedule.max_value example_linear) [''lr'' \<mapsto> Num 2]
       (LinearSchedule.path example_linear) = Inr (Num 2)
   \<and> real_of_int (LinearSchedule.idx example_linear)
       < total_steps example_linear * warmup_rate example_linear
   \<and> LinearSchedule_step example_linear [''lr'' \<mapsto> Num 2] =
       Inr (example_linear\<lparr>LinearSchedule.max_value := Num 2, LinearSchedule.idx := 1\<rparr>,
            [''lr'' \<mapsto> Num 0])
   \<and> (\<exists>v v'. LinearSchedule_step example_linear [''lr'' \<mapsto> Num 2] =
                Inr (example_linear\<lparr>LinearSchedule.max_value := Num 2,
                                    LinearSchedule.idx := 1\<rparr>, [''lr'' \<mapsto> Num v])
            \<and> LinearSchedule_step
                (example_linear\<lparr>LinearSchedule.max_value := Num 2, LinearSchedule.idx := 3\<rparr>)
                [''lr'' \<mapsto> Num 1] =
                Inr (example_linear\<lparr>LinearSchedule.max_value := Num 2,
                                    LinearSchedule.idx := 4\<rparr>, [''lr'' \<mapsto> Num v'])
            \<and> 0 \<le> v \<and> v \<le> v' \<and> v' \<le> 2)"
proof -
  have res: "resolve_max_value (LinearSchedule.max_value example_linear) [''lr'' \<mapsto> Num 2]
               (LinearSchedule.path example_linear) = Inr (Num 2)"
    by (simp add: example_linear_def LinearSchedule_init_def resolve_max_value_def
          get_deep_attr_def)
  have lt: "real_of_int (LinearSchedule.idx example_linear)
              < total_steps example_linear * warmup_rate example_linear"
    by (simp add: example_linear_def LinearSchedule_init_def)
  have vals: "LinearSchedule.idx example_linear = 0" "start_value example_linear = 0"
    "LinearSchedule.path example_linear = ''lr''"
    "total_steps example_linear * warmup_rate example_linear = 5"
    by (simp_all add: example_linear_def LinearSchedule_init_def)
  note ramp = linear_warmup_ramp [OF res lt, of "[''lr'' \<mapsto> Num 1]"]
  from ramp have first: "LinearSchedule_step example_linear [''lr'' \<mapsto> Num 2] =
       Inr (example_linear\<lparr>LinearSchedule.max_value := Num 2, LinearSchedule.idx := 1\<rparr>,
            [''lr'' \<mapsto> Num 0])"
    by (simp add: vals)
  have pre: "0 \<le> LinearSchedule.idx example_linear \<and> start_value example_linear \<le> 2"
    by (simp add: vals)
  have rng: "LinearSchedule.idx example_linear \<le> 3
              \<and> real_of_int 3 < total_steps example_linear * warmup_rate example_linear"
    by (simp add: vals)
  have later: "\<exists>v v'. LinearSchedule_step example_linear [''lr'' \<mapsto> Num 2] =
                Inr (example_linear\<lparr>LinearSchedule.max_value := Num 2,
                                    LinearSchedule.idx := 1\<rparr>, [''lr'' \<mapsto> Num v])
            \<and> LinearSchedule_step
                (example_linear\<lparr>LinearSchedule.max_value := Num 2, LinearSchedule.idx := 3\<rparr>)
                [''lr'' \<mapsto> Num 1] =
                Inr (example_linear\<lparr>LinearSchedule.max_value := Num 2,
                                    LinearSchedule.idx := 4\<rparr>, [''lr'' \<mapsto> Num v'])
            \<and> 0 \<le> v \<and> v \<le> v' \<and> v' \<le> 2"
    using ramp [THEN conjunct2, THEN conjunct2, rule_format, OF pre rng]
    by (simp add: vals)
  from res lt first later show ?thesis by blast
qed

text \<open>
  Claim C1 as stated fails on a schedule whose \<^verbatim>\<open>start_value\<close> 1 lies above its
  \<^verbatim>\<open>max_value\<close> 0 (ten steps, five of warmup): the call at index 0 writes 1, the next
  call writes 4/5, so the values written over the warmup range decrease.
\<close>

theorem linear_warmup_ramp_counterexample:
  "LinearSchedule_step (LinearSchedule_init 10 (Num 0) 1 ''lr'' True (1 / 2)) Map.empty =
     Inr ((LinearSchedule_init 10 (Num 0) 1 ''lr'' True (1 / 2))\<lparr>LinearSchedule.idx := 1\<rparr>,
          [''lr'' \<mapsto> Num 1])
   \<and> LinearSchedule_step
       ((LinearSchedule_init 10 (Num 0) 1 ''lr'' True (1 / 2))\<lparr>LinearSchedule.idx := 1\<rparr>)
       [''lr'' \<mapsto> Num 1] =
     Inr ((LinearSchedule_init 10 (Num 0) 1 ''lr'' True (1 / 2))\<lparr>LinearSchedule.idx := 2\<rparr>,
          [''lr'' \<mapsto> Num (4 / 5)])
   \<and> \<not> ((1::real) \<le> 4 / 5)"
  by (simp add: LinearSchedule_step_def LinearSchedule_init_def resolve_max_value_def
        Let_def py_div_def as_num_def set_deep_attr_def)




text \<open>
  Claim C7, as the code has it. With \<^verbatim>\<open>warmup_steps = total_steps * warmup_rate = 0\<close>
  and a non-negative index, the warmup branch and its division by \<^verbatim>\<open>warmup_steps\<close> are
  skipped: the call computes the decay value \<^verbatim>\<open>m + (0 - m) * (idx / total_steps)\<close>. It
  raises no division by zero when \<^verbatim>\<open>total_steps\<close> is not 0; when \<^verbatim>\<open>total_steps\<close> is 0
  the decay branch divides by zero.
\<close>

theorem linear_zero_warmup:
  fixes s :: LinearSchedule
  assumes ws0: "total_steps s * warmup_rate s = 0"
      and nn: "0 \<le> LinearSchedule.idx s"
  shows "(total_steps s \<noteq> 0 \<longrightarrow> LinearSchedule_step s g \<noteq> Inl ZeroDivisionError)
       \<and> (resolve_max_value (LinearSchedule.max_value s) g (LinearSchedule.path s)
            = Inr (Num m) \<longrightarrow>
          LinearSchedule_step s g =
            (if total_steps s = 0 then Inl ZeroDivisionError
             else Inr (s\<lparr>LinearSchedule.max_value := Num m,
                          LinearSchedule.idx := LinearSchedule.idx s + 1\<rparr>,
                       g(LinearSchedule.path s \<mapsto>
                           Num (m + (0 - m) *
                                  (real_of_int (LinearSchedule.idx s) / total_steps s))))))"
proof (intro conjI impI)
  from nn have nlt: "\<not> real_of_int (LinearSchedule.idx s) < total_steps s * warmup_rate s"
    unfolding ws0 by simp
  {
    assume t: "total_steps s \<noteq> 0"
    show "LinearSchedule_step s g \<noteq> Inl ZeroDivisionError"
    proof
      assume "LinearSchedule_step s g = Inl ZeroDivisionError"
      from LinearSchedule_step_error [OF this] nlt t show False unfolding ws0 by simp
    qed
  }
  {
    assume res: "resolve_max_value (LinearSchedule.max_value s) g (LinearSchedule.path s)
                   = Inr (Num m)"
    show "LinearSchedule_step s g =
            (if total_steps s = 0 then Inl ZeroDivisionError
             else Inr (s\<lparr>LinearSchedule.max_value := Num m,
                          LinearSchedule.idx := LinearSchedule.idx s + 1\<rparr>,
                       g(LinearSchedule.path s \<mapsto>
                           Num (m + (0 - m) *
                                  (real_of_int (LinearSchedule.idx s) / total_steps s)))))"
      using LinearSchedule_step_decay [OF res nlt] by (simp only: ws0 diff_zero)
  }
qed

text \<open>
  A schedule over ten steps with warmup rate 0 and maximum 1 writes 1 at index 0.
\<close>

theorem linear_zero_warmup_witness:
  "total_steps (LinearSchedule_init 10 (Num 1) 0 ''lr'' True 0)
       * warmup_rate (LinearSchedule_init 10 (Num 1) 0 ''lr'' True 0) = 0
   \<and> 0 \<le> LinearSchedule.idx (LinearSchedule_init 10 (Num 1) 0 ''lr'' True 0)
   \<and> LinearSchedule_step (LinearSchedule_init 10 (Num 1) 0 ''lr'' True 0) Map.empty
       \<noteq> Inl ZeroDivisionError
   \<and> LinearSchedule_step (LinearSchedule_init 10 (Num 1) 0 ''lr'' True 0) Map.empty
       = Inr ((LinearSchedule_init 10 (Num 1) 0 ''lr'' True 0)\<lparr>LinearSchedule.idx := 1\<rparr>,
              [''lr'' \<mapsto> Num 1])"
proof -
  let ?s = "LinearSchedule_init 10 (Num 1) 0 ''lr'' True 0"
  have ws0: "total_steps ?s * warmup_rate ?s = 0"
    by (simp add: LinearSchedule_init_def)
  have nn: "0 \<le> LinearSchedule.idx ?s"
    by (simp add: LinearSchedule_init_def)
  have t: "total_steps ?s \<noteq> 0"
    by (simp add: LinearSchedule_init_def)
  have res: "resolve_max_value (LinearSchedule.max_value ?s) Map.empty (LinearSchedule.path ?s)
               = Inr (Num 1)"
    by (simp add: LinearSchedule_init_def)
  note zw = linear_zero_warmup [OF ws0 nn, of Map.empty 1]
  from zw t have 1: "LinearSchedule_step ?s Map.empty \<noteq> Inl ZeroDivisionError"
    by blast
  from zw res have "LinearSchedule_step ?s Map.empty =
            (if total_steps ?s = 0 then Inl ZeroDivisionError
             else Inr (?s\<lparr>LinearSchedule.max_value := Num 1,
                          LinearSchedule.idx := LinearSchedule.idx ?s + 1\<rparr>,
                       Map.empty(LinearSchedule.path ?s \<mapsto>
                           Num (1 + (0 - 1) *
                                  (real_of_int (LinearSchedule.idx ?s) / total_steps ?s)))))"
    by blast
  then have 2: "LinearSchedule_step ?s Map.empty
       = Inr (?s\<lparr>LinearSchedule.idx := 1\<rparr>, [''lr'' \<mapsto> Num 1])"
    by (simp add: LinearSchedule_init_def)
  from ws0 nn 1 2 show ?thesis by blast
qed

text \<open>
  Claim C7 as stated fails on a schedule over zero steps: \<^verbatim>\<open>warmup_steps\<close> is 0, the
  warmup branch is skipped at index 0, and the decay branch divides by
  \<^verbatim>\<open>total_steps - warmup_steps = 0\<close>.
\<close>

theorem linear_zero_warmup_counterexample:
  "total_steps (LinearSchedule_init 0 (Num 1) 0 ''lr'' True (1 / 10))
       * warmup_rate (LinearSchedule_init 0 (Num 1) 0 ''lr'' True (1 / 10)) = 0
   \<and> LinearSchedule.idx (LinearSchedule_init 0 (Num 1) 0 ''lr'' True (1 / 10)) = 0
   \<and> LinearSchedule_step (LinearSchedule_init 0 (Num 1) 0 ''lr'' True (1 / 10))
       [''lr'' \<mapsto> Num 1] = Inl ZeroDivisionError"
  by (simp add: LinearSchedule_step_def LinearSchedule_init_def resolve_max_value_def
        Let_def py_div_def)

section \<open>The cyclical schedule\<close>




section \<open>What a schedule persists\<close>

text \<open>
  Claim C8. The state dict of either schedule has the single key \<^verbatim>\<open>idx\<close>, holding the
  step index. \<^verbatim>\<open>load_state_dict\<close> fails only on a state without that key, and otherwise
  returns the schedule with its index replaced by the saved one and every other field as
  it was; for the cyclical schedule \<^verbatim>\<open>num_epoch\<close> is among the fields left as they were.
  So a freshly constructed cyclical schedule that loads the state of another resumes with
  the other's index and with \<^verbatim>\<open>num_epoch = 0\<close>.
\<close>

theorem schedules_persist_only_idx:
  "dom (LinearSchedule_state_dict s) = {''idx''}
   \<and> LinearSchedule_state_dict s ''idx'' = Some (LinearSchedule.idx s)
   \<and> dom (CyclicalLinearSchedule_state_dict c) = {''idx''}
   \<and> CyclicalLinearSchedule_state_dict c ''idx'' = Some (CyclicalLinearSchedule.idx c)
   \<and> (case LinearSchedule_load_state_dict s st of
         Inl e \<Rightarrow> e = KeyError \<and> st ''idx'' = None
       | Inr s' \<Rightarrow> st ''idx'' = Some (LinearSchedule.idx s')
                  \<and> s' = s\<lparr>LinearSchedule.idx := LinearSchedule.idx s'\<rparr>)
   \<and> (case CyclicalLinearSchedule_load_state_dict c st of
         Inl e \<Rightarrow> e = KeyError \<and> st ''idx'' = None
       | Inr c' \<Rightarrow> st ''idx'' = Some (CyclicalLinearSchedule.idx c')
                  \<and> c' = c\<lparr>CyclicalLinearSchedule.idx := CyclicalLinearSchedule.idx c'\<rparr>
                  \<and> num_epoch c' = num_epoch c)
   \<and> (case CyclicalLinearSchedule_load_state_dict
              (CyclicalLinearSchedule_init spe mx mn epc p)
              (CyclicalLinearSchedule_state_dict c) of
         Inl e \<Rightarrow> False
       | Inr c' \<Rightarrow> num_epoch c' = 0
                  \<and> CyclicalLinearSchedule.idx c' = CyclicalLinearSchedule.idx c)"
  by (simp add: LinearSchedule_state_dict_def CyclicalLinearSchedule_state_dict_def
        LinearSchedule_load_state_dict_def CyclicalLinearSchedule_load_state_dict_def
        CyclicalLinearSchedule_init_def split: option.splits)

section \<open>The wrapper: lemmas\<close>

lemma collect_Inr_iff:
  "(\<exists>ys. collect f xs = Inr ys) \<longleftrightarrow> (\<forall>x\<in>set xs. \<exists>y. f x = Inr y)"
  by (induction xs) (auto split: sum.splits)

lemma collect_Inr_map:
  "(\<forall>x\<in>set xs. f x = Inr (g x)) \<Longrightarrow> collect f xs = Inr (map g xs)"
  by (induction xs) auto

lemma collect_error:
  "collect f xs = Inl e \<Longrightarrow> \<exists>x\<in>set xs. f x = Inl e"
  by (induction xs) (auto split: sum.splits)

lemma group_schedule_states_error:
  "group_schedule_states h grp = Inl e \<Longrightarrow> e = TypeError"
  by (auto simp: group_schedule_states_def split: option.splits pyval.splits)

lemma group_schedule_states_Inr_iff:
  "(\<exists>y. group_schedule_states h grp = Inr y) \<longleftrightarrow> (\<exists>as. grp ''schedules'' = Some (SchedList as))"
  by (auto simp: group_schedule_states_def split: option.splits pyval.splits)

lemma state_dict_Inr_iff:
  "(\<exists>sd. ScheduledOptimizer_state_dict self h = Inr sd) \<longleftrightarrow>
   (\<forall>g\<in>set (param_groups (optim self)). \<exists>as. g ''schedules'' = Some (SchedList as))"
proof
  assume "\<exists>sd. ScheduledOptimizer_state_dict self h = Inr sd"
  then have "\<exists>ys. collect (group_schedule_states h) (param_groups (optim self)) = Inr ys"
    by (auto simp: ScheduledOptimizer_state_dict_def Let_def split: sum.splits)
  then show "\<forall>g\<in>set (param_groups (optim self)). \<exists>as. g ''schedules'' = Some (SchedList as)"
    by (simp add: collect_Inr_iff group_schedule_states_Inr_iff)
next
  assume a: "\<forall>g\<in>set (param_groups (optim self)). \<exists>as. g ''schedules'' = Some (SchedList as)"
  then have 1: "\<exists>ys. collect (group_schedule_states h) (param_groups (optim self)) = Inr ys"
    by (simp add: collect_Inr_iff group_schedule_states_Inr_iff)
  from a have "\<forall>g\<in>set (param_groups (optim self)). \<exists>y. del_schedules g = Inr y"
    by (auto simp: del_schedules_def)
  then have 2: "\<exists>ys. collect del_schedules (sd_param_groups (optimizer_state_dict (optim self))) = Inr ys"
    by (simp add: collect_Inr_iff optimizer_state_dict_def)
  from 1 2 show "\<exists>sd. ScheduledOptimizer_state_dict self h = Inr sd"
    by (auto simp: ScheduledOptimizer_state_dict_def Let_def)
qed

lemma for_groups_unchanged:
  "(\<forall>g\<in>set gs. body g h = Inr (g, h)) \<Longrightarrow> for_groups body gs h = Inr (gs, h)"
  by (induction gs) auto

section \<open>The wrapper's step and state dict\<close>

text \<open>
  Claim C10. Whenever \<^verbatim>\<open>ScheduledOptimizer.step(closure)\<close> returns, it returns
  \<^verbatim>\<open>None\<close>: the inner optimizer's \<^verbatim>\<open>step\<close> was called with the closure and returned
  some value, which the wrapper drops, keeping only the inner optimizer's new state.
\<close>

theorem step_returns_None:
  assumes "ScheduledOptimizer_step optim_step self closure h = Inr (r, self', h')"
  shows "r = None \<and>
         (\<exists>loss optim'. optim_step (optim self) closure = Inr (loss, optim')
            \<and> optimizer.state (optim self') = optimizer.state optim')"
  using assms
  by (auto simp: ScheduledOptimizer_step_def split: sum.splits prod.splits)

text \<open>
  On the example optimizer the inner step returns the closure's value 5 as the loss; the
  wrapper's step returns \<^verbatim>\<open>None\<close>.
\<close>

theorem step_returns_None_witness:
  "example_optim_step example_optimizer 5 = Inr (5, example_optimizer)
   \<and> (\<exists>self' h'. ScheduledOptimizer_step example_optim_step
          \<lparr> optim = example_optimizer\<lparr>param_groups :=
                       [[''lr'' \<mapsto> Num 0, ''schedules'' \<mapsto> SchedList [0]]]\<rparr>,
            ScheduledOptimizer.defaults = Map.empty \<rparr> 5 example_heap
        = Inr (None, self', h'))"
proof -
  let ?w = "\<lparr> optim = example_optimizer\<lparr>param_groups :=
                       [[''lr'' \<mapsto> Num 0, ''schedules'' \<mapsto> SchedList [0]]]\<rparr>,
            ScheduledOptimizer.defaults = Map.empty \<rparr>"
  have "\<exists>r self' h'. ScheduledOptimizer_step example_optim_step ?w 5 example_heap
          = Inr (r, self', h')"
    by (simp add: ScheduledOptimizer_step_def example_optim_step_def example_optimizer_def
          step_group_def example_heap_def example_linear_def LinearSchedule_init_def
          LinearSchedule_step_def resolve_max_value_def get_deep_attr_def Let_def py_div_def
          as_num_def set_deep_attr_def)
  then obtain r self' h' where
    s: "ScheduledOptimizer_step example_optim_step ?w 5 example_heap = Inr (r, self', h')"
    by blast
  from step_returns_None [OF s] have "r = None" by blast
  with s have "\<exists>self' h'. ScheduledOptimizer_step example_optim_step ?w 5 example_heap
                 = Inr (None, self', h')"
    by blast
  moreover have "example_optim_step example_optimizer 5 = Inr (5, example_optimizer)"
    by (simp add: example_optim_step_def)
  ultimately show ?thesis by blast
qed

text \<open>
  Claim C9. If some parameter group has no \<^verbatim>\<open>schedules\<close> entry, \<^verbatim>\<open>state_dict()\<close> raises
  (a type error, from iterating \<^verbatim>\<open>None\<close>; deleting the key from the group's copy would
  raise a key error, were it reached); it returns a state exactly when every group
  carries a list of schedules. The loop bodies of the constructor and of \<^verbatim>\<open>step\<close> leave
  a group without the entry, and the store, as they are; so over an inner optimizer none
  of whose groups has the entry, construction succeeds and changes nothing, and so does a
  step whose inner step changes nothing.
\<close>

theorem state_dict_needs_schedules:
  "((\<exists>g\<in>set (param_groups (optim self)). g ''schedules'' = None)
      \<longrightarrow> ScheduledOptimizer_state_dict self h = Inl TypeError)
   \<and> ((\<exists>sd. ScheduledOptimizer_state_dict self h = Inr sd) \<longleftrightarrow>
        (\<forall>g\<in>set (param_groups (optim self)). \<exists>as. g ''schedules'' = Some (SchedList as)))
   \<and> (grp ''schedules'' = None \<longrightarrow>
        init_group grp h = Inr (grp, h) \<and> step_group grp h = Inr (grp, h)
        \<and> group_schedule_states h grp = Inl TypeError \<and> del_schedules grp = Inl KeyError)
   \<and> ((\<forall>g\<in>set (param_groups opt). g ''schedules'' = None) \<longrightarrow>
        ScheduledOptimizer_init opt h
          = Inr (\<lparr> optim = opt, ScheduledOptimizer.defaults = optimizer.defaults opt \<rparr>, h)
        \<and> (optim_step opt closure = Inr (loss, opt) \<longrightarrow>
             ScheduledOptimizer_step optim_step
               \<lparr> optim = opt, ScheduledOptimizer.defaults = optimizer.defaults opt \<rparr> closure h
             = Inr (None, \<lparr> optim = opt, ScheduledOptimizer.defaults = optimizer.defaults opt \<rparr>, h)))"
proof (intro conjI impI)
  assume "\<exists>g\<in>set (param_groups (optim self)). g ''schedules'' = None"
  then have "\<not> (\<exists>sd. ScheduledOptimizer_state_dict self h = Inr sd)"
    unfolding state_dict_Inr_iff by force
  then obtain e where e: "ScheduledOptimizer_state_dict self h = Inl e"
    by (cases "ScheduledOptimizer_state_dict self h") auto
  have "\<not> (\<exists>ys. collect (group_schedule_states h) (param_groups (optim self)) = Inr ys)"
    using \<open>\<exists>g\<in>set (param_groups (optim self)). g ''schedules'' = None\<close>
    unfolding collect_Inr_iff group_schedule_states_Inr_iff by force
  then obtain e' where e': "collect (group_schedule_states h) (param_groups (optim self)) = Inl e'"
    by (cases "collect (group_schedule_states h) (param_groups (optim self))") auto
  then have "e' = TypeError"
    by (auto dest!: collect_error group_schedule_states_error)
  with e' show "ScheduledOptimizer_state_dict self h = Inl TypeError"
    by (simp add: ScheduledOptimizer_state_dict_def Let_def)
next
  show "(\<exists>sd. ScheduledOptimizer_state_dict self h = Inr sd) \<longleftrightarrow>
        (\<forall>g\<in>set (param_groups (optim self)). \<exists>as. g ''schedules'' = Some (SchedList as))"
    by (rule state_dict_Inr_iff)
next
  assume "grp ''schedules'' = None"
  then show "init_group grp h = Inr (grp, h)" by (simp add: init_group_def)
next
  assume "grp ''schedules'' = None"
  then show "step_group grp h = Inr (grp, h)" by (simp add: step_group_def)
next
  assume "grp ''schedules'' = None"
  then show "group_schedule_states h grp = Inl TypeError"
    by (simp add: group_schedule_states_def)
next
  assume "grp ''schedules'' = None"
  then show "del_schedules grp = Inl KeyError" by (simp add: del_schedules_def)
next
  assume a: "\<forall>g\<in>set (param_groups opt). g ''schedules'' = None"
  then have "for_groups init_group (param_groups opt) h = Inr (param_groups opt, h)"
    by (intro for_groups_unchanged) (auto simp: init_group_def)
  then show "ScheduledOptimizer_init opt h
          = Inr (\<lparr> optim = opt, ScheduledOptimizer.defaults = optimizer.defaults opt \<rparr>, h)"
    by (simp add: ScheduledOptimizer_init_def)
next
  assume a: "\<forall>g\<in>set (param_groups opt). g ''schedules'' = None"
    and s: "optim_step opt closure = Inr (loss, opt)"
  from a have "for_groups step_group (param_groups opt) h = Inr (param_groups opt, h)"
    by (intro for_groups_unchanged) (auto simp: step_group_def)
  with s show "ScheduledOptimizer_step optim_step
               \<lparr> optim = opt, ScheduledOptimizer.defaults = optimizer.defaults opt \<rparr> closure h
             = Inr (None, \<lparr> optim = opt, ScheduledOptimizer.defaults = optimizer.defaults opt \<rparr>, h)"
    by (simp add: ScheduledOptimizer_step_def)
qed

text \<open>
  On the optimizer whose only group carries no schedule, construction and a step succeed
  and \<^verbatim>\<open>state_dict()\<close> raises a type error.
\<close>

theorem state_dict_needs_schedules_witness:
  "(\<exists>g. g \<in> set (param_groups example_plain_optimizer) \<and> g ''schedules'' = None)
   \<and> ScheduledOptimizer_init example_plain_optimizer example_heap
       = Inr (\<lparr> optim = example_plain_optimizer,
                 ScheduledOptimizer.defaults = optimizer.defaults example_plain_optimizer \<rparr>,
              example_heap)
   \<and> ScheduledOptimizer_step example_optim_step
         \<lparr> optim = example_plain_optimizer,
           ScheduledOptimizer.defaults = optimizer.defaults example_plain_optimizer \<rparr>
         5 example_heap
       = Inr (None,
              \<lparr> optim = example_plain_optimizer,
                ScheduledOptimizer.defaults = optimizer.defaults example_plain_optimizer \<rparr>,
              example_heap)
   \<and> ScheduledOptimizer_state_dict
         \<lparr> optim = example_plain_optimizer,
           ScheduledOptimizer.defaults = optimizer.defaults example_plain_optimizer \<rparr>
         example_heap
       = Inl TypeError"
proof -
  let ?w = "\<lparr> optim = example_plain_optimizer,
             ScheduledOptimizer.defaults = optimizer.defaults example_plain_optimizer \<rparr>"
  have ex: "\<exists>g\<in>set (param_groups (optim ?w)). g ''schedules'' = None"
    by (simp add: example_plain_optimizer_def)
  have all: "\<forall>g\<in>set (param_groups example_plain_optimizer). g ''schedules'' = None"
    by (simp add: example_plain_optimizer_def)
  have inner: "example_optim_step example_plain_optimizer 5 = Inr (5, example_plain_optimizer)"
    by (simp add: example_optim_step_def)
  note c9 = state_dict_needs_schedules
    [of ?w example_heap Map.empty example_plain_optimizer example_optim_step 5 5]
  from c9 ex have 1: "ScheduledOptimizer_state_dict ?w example_heap = Inl TypeError"
    by blast
  from c9 all have 2: "ScheduledOptimizer_init example_plain_optimizer example_heap
       = Inr (?w, example_heap)"
    by blast
  from c9 all inner have 3: "ScheduledOptimizer_step example_optim_step ?w 5 example_heap
       = Inr (None, ?w, example_heap)"
    by blast
  from ex have 0: "\<exists>g. g \<in> set (param_groups example_plain_optimizer) \<and> g ''schedules'' = None"
    by auto
  from 0 1 2 3 show ?thesis by blast
qed

section \<open>The layout of the wrapper's state\<close>

lemma group_schedule_states_list:
  "grp ''schedules'' = Some (SchedList as) \<Longrightarrow>
   group_schedule_states h grp = Inr (map (\<lambda>a. schedule_state_dict (h a)) (group_schedules grp))"
  by (simp add: group_schedule_states_def group_schedules_def schedules_of_def)

lemma del_schedules_list:
  "grp ''schedules'' = Some v \<Longrightarrow> del_schedules grp = Inr (grp(''schedules'' := None))"
  by (simp add: del_schedules_def)

lemma state_dict_eq:
  assumes "\<forall>g\<in>set (param_groups (optim self)). \<exists>as. g ''schedules'' = Some (SchedList as)"
  shows "ScheduledOptimizer_state_dict self h =
           Inr [''optim'' \<mapsto> OptimState
                  \<lparr> sd_state = state (optim self),
                    sd_param_groups =
                      map (\<lambda>g. g(''schedules'' := None)) (param_groups (optim self)) \<rparr>,
                ''lr'' \<mapsto> LrList (map get_lr (param_groups (optim self))),
                ''schedules'' \<mapsto> ScheduleStates
                  (map (\<lambda>g. map (\<lambda>a. schedule_state_dict (h a)) (group_schedules g))
                     (param_groups (optim self)))]"
proof -
  have 1: "collect (group_schedule_states h) (param_groups (optim self)) =
             Inr (map (\<lambda>g. map (\<lambda>a. schedule_state_dict (h a)) (group_schedules g))
                    (param_groups (optim self)))"
    using assms by (intro collect_Inr_map) (auto simp: group_schedule_states_list)
  have 2: "collect del_schedules (param_groups (optim self)) =
             Inr (map (\<lambda>g. g(''schedules'' := None)) (param_groups (optim self)))"
    using assms by (intro collect_Inr_map) (auto simp: del_schedules_list)
  show ?thesis
    by (simp add: ScheduledOptimizer_state_dict_def Let_def optimizer_state_dict_def 1 2)
qed

text \<open>
  The layout of the state. When every parameter group carries a list of schedules,
  \<^verbatim>\<open>state_dict()\<close> returns a dictionary with exactly the keys \<^verbatim>\<open>optim\<close>, \<^verbatim>\<open>lr\<close> and
  \<^verbatim>\<open>schedules\<close>: \<^verbatim>\<open>optim\<close> holds the inner optimizer's state dict (its internal state and
  a copy of every group) with the \<^verbatim>\<open>schedules\<close> entry removed from every group copy,
  \<^verbatim>\<open>lr\<close> holds the value of the \<^verbatim>\<open>lr\<close> field of every group in group order (\<^verbatim>\<open>None\<close> for
  a group without one), and \<^verbatim>\<open>schedules\<close> holds, for every group in group order, the
  state of each of its schedules in attachment order.
\<close>

theorem state_dict_layout:
  assumes "\<forall>g\<in>set (param_groups (optim self)). \<exists>as. g ''schedules'' = Some (SchedList as)"
  shows "\<exists>sd. ScheduledOptimizer_state_dict self h = Inr sd
           \<and> dom sd = {''optim'', ''lr'', ''schedules''}
           \<and> sd ''optim'' = Some (OptimState
                  ((optimizer_state_dict (optim self))
                     \<lparr>sd_param_groups :=
                        map (\<lambda>g. g(''schedules'' := None))
                          (sd_param_groups (optimizer_state_dict (optim self)))\<rparr>))
           \<and> sd_state (optimizer_state_dict (optim self)) = state (optim self)
           \<and> sd_param_groups (optimizer_state_dict (optim self)) = param_groups (optim self)
           \<and> sd ''lr'' = Some (LrList (map get_lr (param_groups (optim self))))
           \<and> sd ''schedules'' = Some (ScheduleStates
                  (map (\<lambda>g. map (\<lambda>a. schedule_state_dict (h a)) (group_schedules g))
                     (param_groups (optim self))))"
  unfolding state_dict_eq [OF assms]
  by (auto simp: optimizer_state_dict_def)

text \<open>
  The example optimizer after construction: one group with learning rate 0 whose schedule
  at address 0 is the example schedule.
\<close>

theorem state_dict_layout_witness:
  "(\<exists>as. [''lr'' \<mapsto> Num 0, ''schedules'' \<mapsto> SchedList [0]] ''schedules'' = Some (SchedList as))
   \<and> (\<exists>sd. ScheduledOptimizer_state_dict
          \<lparr> optim = example_optimizer\<lparr>param_groups :=
                       [[''lr'' \<mapsto> Num 0, ''schedules'' \<mapsto> SchedList [0]]]\<rparr>,
            ScheduledOptimizer.defaults = Map.empty \<rparr> example_heap = Inr sd
        \<and> dom sd = {''optim'', ''lr'', ''schedules''}
        \<and> sd ''optim'' = Some (OptimState
              \<lparr> sd_state = (), sd_param_groups = [[''lr'' \<mapsto> Num 0]] \<rparr>)
        \<and> sd ''lr'' = Some (LrList [Num 0])
        \<and> sd ''schedules'' = Some (ScheduleStates [[[''idx'' \<mapsto> 0]]]))"
proof -
  let ?w = "\<lparr> optim = example_optimizer\<lparr>param_groups :=
                       [[''lr'' \<mapsto> Num 0, ''schedules'' \<mapsto> SchedList [0]]]\<rparr>,
            ScheduledOptimizer.defaults = Map.empty \<rparr>"
  have pre: "\<forall>g\<in>set (param_groups (optim ?w)). \<exists>as. g ''schedules'' = Some (SchedList as)"
    by simp
  have del: "[''lr'' \<mapsto> Num 0, ''schedules'' \<mapsto> SchedList [0]](''schedules'' := None)
               = [''lr'' \<mapsto> Num 0]"
    by (rule ext) simp
  from state_dict_layout [OF pre, of example_heap]
  have "\<exists>sd. ScheduledOptimizer_state_dict ?w example_heap = Inr sd
        \<and> dom sd = {''optim'', ''lr'', ''schedules''}
        \<and> sd ''optim'' = Some (OptimState
              \<lparr> sd_state = (), sd_param_groups = [[''lr'' \<mapsto> Num 0]] \<rparr>)
        \<and> sd ''lr'' = Some (LrList [Num 0])
        \<and> sd ''schedules'' = Some (ScheduleStates [[[''idx'' \<mapsto> 0]]])"
    by (simp add: optimizer_state_dict_def example_optimizer_def get_lr_def del
          group_schedules_def schedules_of_def example_heap_def example_linear_def
          LinearSchedule_init_def LinearSchedule_state_dict_def)
  then show ?thesis by simp
qed

text \<open>
  Claim C6 fails on the code. A wrapper over the optimizer whose only group
  \<^verbatim>\<open>{"lr": 2}\<close> carries no \<^verbatim>\<open>schedules\<close> entry is constructed without error and takes a
  step without error: the constructor and \<^verbatim>\<open>step\<close> skip a group without the key. Its
  \<^verbatim>\<open>state_dict()\<close> iterates \<^verbatim>\<open>group.get("schedules")\<close>, which is \<^verbatim>\<open>None\<close>, raises a type
  error and returns no dictionary.
\<close>

theorem state_dict_raises_without_schedules:
  "ScheduledOptimizer_init example_plain_optimizer example_heap
     = Inr (\<lparr> optim = example_plain_optimizer, ScheduledOptimizer.defaults = Map.empty \<rparr>,
            example_heap)
   \<and> ScheduledOptimizer_step example_optim_step
       \<lparr> optim = example_plain_optimizer, ScheduledOptimizer.defaults = Map.empty \<rparr> 5
       example_heap
     = Inr (None, \<lparr> optim = example_plain_optimizer, ScheduledOptimizer.defaults = Map.empty \<rparr>,
            example_heap)
   \<and> ScheduledOptimizer_state_dict
       \<lparr> optim = example_plain_optimizer, ScheduledOptimizer.defaults = Map.empty \<rparr>
       example_heap
     = Inl TypeError"
  by (simp add: ScheduledOptimizer_init_def ScheduledOptimizer_step_def
        ScheduledOptimizer_state_dict_def Let_def example_plain_optimizer_def
        example_optim_step_def init_group_def step_group_def group_schedule_states_def)

section \<open>Construction\<close>

text \<open>
  Stepping a schedule advances its index by one, so a loop over attached schedules
  advances the index of every schedule object by the number of times it is attached; it
  leaves the other objects of the store alone, and its outcome depends only on the
  objects it steps.
\<close>

lemma LinearSchedule_step_idx:
  "LinearSchedule_step s g = Inr (s', g') \<Longrightarrow>
     LinearSchedule.idx s' = LinearSchedule.idx s + 1"
  by (auto simp: LinearSchedule_step_def Let_def split: sum.splits if_splits)

lemma CyclicalLinearSchedule_step_idx:
  "CyclicalLinearSchedule_step s g = Inr (s', g') \<Longrightarrow>
     CyclicalLinearSchedule.idx s' = CyclicalLinearSchedule.idx s + 1"
  by (auto simp: CyclicalLinearSchedule_step_def Let_def split: sum.splits if_splits)

lemma schedule_step_idx:
  "schedule_step s g = Inr (s', g') \<Longrightarrow> schedule_idx s' = schedule_idx s + 1"
  by (cases s)
     (auto split: sum.splits dest: LinearSchedule_step_idx CyclicalLinearSchedule_step_idx)

lemma step_schedules_idx:
  "step_schedules as g h = Inr (g', h') \<Longrightarrow>
     schedule_idx (h' a) = schedule_idx (h a) + int (count_list as a)"
proof (induction as arbitrary: g h)
  case Nil
  then show ?case by simp
next
  case (Cons b as)
  from Cons.prems obtain s1 g1 where
    1: "schedule_step (h b) g = Inr (s1, g1)" and
    2: "step_schedules as g1 (h(b := s1)) = Inr (g', h')"
    by (auto split: sum.splits)
  from Cons.IH [OF 2] schedule_step_idx [OF 1] show ?case by auto
qed

lemma step_schedules_frame:
  "step_schedules as g h = Inr (g', h') \<Longrightarrow> a \<notin> set as \<Longrightarrow> h' a = h a"
proof (induction as arbitrary: g h)
  case Nil
  then show ?case by simp
next
  case (Cons b as)
  from Cons.prems obtain s1 g1 where
    2: "step_schedules as g1 (h(b := s1)) = Inr (g', h')"
    by (auto split: sum.splits)
  from Cons.IH [OF 2] Cons.prems(2) show ?case by auto
qed

lemma step_schedules_cong:
  "step_schedules as g h1 = Inr (g', h1') \<Longrightarrow> \<forall>a\<in>set as. h1 a = h2 a \<Longrightarrow>
     \<exists>h2'. step_schedules as g h2 = Inr (g', h2') \<and> (\<forall>a\<in>set as. h1' a = h2' a)"
proof (induction as arbitrary: g h1 h2)
  case Nil
  then show ?case by simp
next
  case (Cons b as)
  from Cons.prems obtain s1 g1 where
    1: "schedule_step (h1 b) g = Inr (s1, g1)" and
    2: "step_schedules as g1 (h1(b := s1)) = Inr (g', h1')"
    by (auto split: sum.splits)
  from Cons.prems(2) have eq: "h2 b = h1 b" by simp
  have agree: "\<forall>a\<in>set as. (h1(b := s1)) a = (h2(b := s1)) a"
    using Cons.prems(2) by simp
  from Cons.IH [OF 2 agree] obtain h2' where
    3: "step_schedules as g1 (h2(b := s1)) = Inr (g', h2')" and
    4: "\<forall>a\<in>set as. h1' a = h2' a"
    by blast
  have 5: "h1' b = h2' b"
  proof (cases "b \<in> set as")
    case True
    with 4 show ?thesis by simp
  next
    case False
    from step_schedules_frame [OF 2 False] step_schedules_frame [OF 3 False]
    show ?thesis by simp
  qed
  from 1 3 eq have "step_schedules (b # as) g h2 = Inr (g', h2')" by simp
  with 4 5 show ?case by auto
qed

text \<open>The constructor's loop body steps the attached schedules on the normalised group.\<close>

lemma init_group_cases:
  assumes "init_group g h = Inr (g', h')"
  shows "(g ''schedules'' = None \<and> g' = g \<and> h' = h)
       \<or> (g ''schedules'' \<noteq> None
           \<and> step_schedules (group_schedules g)
                (g(''schedules'' \<mapsto> SchedList (group_schedules g))) h = Inr (g', h'))"
  using assms
  by (auto simp: init_group_def group_schedules_def schedules_of_def
           split: option.splits pyval.splits)

lemma init_group_idx:
  "init_group g h = Inr (g', h') \<Longrightarrow>
     schedule_idx (h' a) = schedule_idx (h a) + int (count_list (group_schedules g) a)"
  by (drule init_group_cases) (auto simp: group_schedules_def dest: step_schedules_idx)

lemma init_group_frame:
  "init_group g h = Inr (g', h') \<Longrightarrow> a \<notin> set (group_schedules g) \<Longrightarrow> h' a = h a"
  by (drule init_group_cases) (auto dest: step_schedules_frame)

lemma init_group_cong:
  assumes "init_group g h1 = Inr (g', h1')" and "\<forall>a\<in>set (group_schedules g). h1 a = h2 a"
  shows "\<exists>h2'. init_group g h2 = Inr (g', h2') \<and> (\<forall>a\<in>set (group_schedules g). h1' a = h2' a)"
proof -
  from init_group_cases [OF assms(1)] show ?thesis
  proof
    assume a: "g ''schedules'' = None \<and> g' = g \<and> h1' = h1"
    then have "init_group g h2 = Inr (g', h2)" by (simp add: init_group_def)
    with a assms(2) show ?thesis by auto
  next
    assume a: "g ''schedules'' \<noteq> None
           \<and> step_schedules (group_schedules g)
                (g(''schedules'' \<mapsto> SchedList (group_schedules g))) h1 = Inr (g', h1')"
    then obtain h2' where
      1: "step_schedules (group_schedules g)
            (g(''schedules'' \<mapsto> SchedList (group_schedules g))) h2 = Inr (g', h2')" and
      2: "\<forall>a\<in>set (group_schedules g). h1' a = h2' a"
      using step_schedules_cong [OF _ assms(2)] by blast
    from a assms(1) have ok: "\<exists>r. init_group g h1 = Inr r" by simp
    have "init_group g h2 = Inr (g', h2')"
      using a 1 ok
      by (auto simp: init_group_def group_schedules_def schedules_of_def
               split: option.splits pyval.splits)
    with 2 show ?thesis by blast
  qed
qed

lemma for_groups_length:
  "for_groups body gs h = Inr (gs', h') \<Longrightarrow> length gs' = length gs"
  by (induction gs arbitrary: h gs') (auto split: sum.splits)

lemma for_groups_init_idx:
  "for_groups init_group gs h = Inr (gs', h') \<Longrightarrow>
     schedule_idx (h' a) = schedule_idx (h a) + int (count_list (attached gs) a)"
proof (induction gs arbitrary: h gs')
  case Nil
  then show ?case by (simp add: attached_def)
next
  case (Cons g gs)
  from Cons.prems obtain g1 h1 gs1 where
    1: "init_group g h = Inr (g1, h1)" and
    2: "for_groups init_group gs h1 = Inr (gs1, h')"
    by (auto split: sum.splits)
  from Cons.IH [OF 2] init_group_idx [OF 1, of a] show ?case
    by (simp add: attached_def)
qed

lemma for_groups_init_frame:
  "for_groups init_group gs h = Inr (gs', h') \<Longrightarrow> a \<notin> set (attached gs) \<Longrightarrow> h' a = h a"
proof (induction gs arbitrary: h gs')
  case Nil
  then show ?case by simp
next
  case (Cons g gs)
  from Cons.prems obtain g1 h1 gs1 where
    1: "init_group g h = Inr (g1, h1)" and
    2: "for_groups init_group gs h1 = Inr (gs1, h')"
    by (auto split: sum.splits)
  from Cons.prems(2) have n1: "a \<notin> set (group_schedules g)" and n2: "a \<notin> set (attached gs)"
    by (auto simp: attached_def)
  from Cons.IH [OF 2 n2] init_group_frame [OF 1 n1] show ?case by simp
qed

lemma for_groups_init_alone:
  "for_groups init_group gs h = Inr (gs', h') \<Longrightarrow> distinct (attached gs) \<Longrightarrow>
     i < length gs \<Longrightarrow>
     \<exists>hi. init_group (gs ! i) h = Inr (gs' ! i, hi)
          \<and> (\<forall>a\<in>set (group_schedules (gs ! i)). h' a = hi a)"
proof (induction gs arbitrary: h gs' i)
  case Nil
  then show ?case by simp
next
  case (Cons g gs)
  from Cons.prems(1) obtain g1 h1 gs1 where
    1: "init_group g h = Inr (g1, h1)" and
    2: "for_groups init_group gs h1 = Inr (gs1, h')" and
    3: "gs' = g1 # gs1"
    by (auto split: sum.splits)
  from Cons.prems(2) have d: "distinct (attached gs)"
    and disj: "set (group_schedules g) \<inter> set (attached gs) = {}"
    by (auto simp: attached_def)
  show ?case
  proof (cases i)
    case 0
    have "\<forall>a\<in>set (group_schedules g). h' a = h1 a"
      using for_groups_init_frame [OF 2] disj by auto
    with 1 3 0 show ?thesis by auto
  next
    case (Suc j)
    with Cons.prems(3) have j: "j < length gs" by simp
    from Cons.IH [OF 2 d j] obtain hj where
      4: "init_group (gs ! j) h1 = Inr (gs1 ! j, hj)" and
      5: "\<forall>a\<in>set (group_schedules (gs ! j)). h' a = hj a"
      by blast
    have sub: "set (group_schedules (gs ! j)) \<subseteq> set (attached gs)"
      using j by (auto simp: attached_def intro!: bexI [of _ "gs ! j"])
    have agree: "\<forall>a\<in>set (group_schedules (gs ! j)). h1 a = h a"
      using init_group_frame [OF 1] disj sub by auto
    from init_group_cong [OF 4 agree] obtain hj' where
      6: "init_group (gs ! j) h = Inr (gs1 ! j, hj')" and
      7: "\<forall>a\<in>set (group_schedules (gs ! j)). hj a = hj' a"
      by blast
    from 5 6 7 3 Suc show ?thesis by auto
  qed
qed

lemma count_list_distinct:
  "distinct xs \<Longrightarrow> x \<in> set xs \<Longrightarrow> count_list xs x = 1"
  by (induction xs) auto

text \<open>
  The loops of the constructor as chains of stores: the store each group is visited with
  is the one the previous group left, and within a group the store and the group each
  schedule is stepped with are those the previous schedule left.
\<close>

lemma step_schedules_chain:
  "step_schedules as g h = Inr (g', h') \<Longrightarrow>
   \<exists>ps. length ps = Suc (length as) \<and> ps ! 0 = (g, h) \<and> ps ! length as = (g', h')
      \<and> (\<forall>j<length as.
            \<exists>s'. schedule_step (snd (ps ! j) (as ! j)) (fst (ps ! j)) = Inr (s', fst (ps ! Suc j))
               \<and> snd (ps ! Suc j) = (snd (ps ! j))(as ! j := s'))"
proof (induction as arbitrary: g h)
  case Nil
  then have "length [(g, h)] = Suc (length ([]::addr list)) \<and> [(g, h)] ! 0 = (g, h)
      \<and> [(g, h)] ! length ([]::addr list) = (g', h')"
    by simp
  then show ?case by (intro exI [of _ "[(g, h)]"]) simp
next
  case (Cons a as)
  from Cons.prems obtain s1 g1 where
    1: "schedule_step (h a) g = Inr (s1, g1)" and
    2: "step_schedules as g1 (h(a := s1)) = Inr (g', h')"
    by (auto split: sum.splits)
  from Cons.IH [OF 2] obtain ps where
    len: "length ps = Suc (length as)" and
    p0: "ps ! 0 = (g1, h(a := s1))" and
    pn: "ps ! length as = (g', h')" and
    st: "\<forall>j<length as.
            \<exists>s'. schedule_step (snd (ps ! j) (as ! j)) (fst (ps ! j)) = Inr (s', fst (ps ! Suc j))
               \<and> snd (ps ! Suc j) = (snd (ps ! j))(as ! j := s')"
    by blast
  let ?ps = "(g, h) # ps"
  have a: "length ?ps = Suc (length (a # as))" using len by simp
  have b: "?ps ! 0 = (g, h)" by simp
  have c: "?ps ! length (a # as) = (g', h')" using pn by simp
  have d: "\<forall>j<length (a # as).
            \<exists>s'. schedule_step (snd (?ps ! j) ((a # as) ! j)) (fst (?ps ! j))
                    = Inr (s', fst (?ps ! Suc j))
               \<and> snd (?ps ! Suc j) = (snd (?ps ! j))((a # as) ! j := s')"
  proof (intro allI impI)
    fix j assume j: "j < length (a # as)"
    show "\<exists>s'. schedule_step (snd (?ps ! j) ((a # as) ! j)) (fst (?ps ! j))
                    = Inr (s', fst (?ps ! Suc j))
               \<and> snd (?ps ! Suc j) = (snd (?ps ! j))((a # as) ! j := s')"
    proof (cases j)
      case 0
      with 1 p0 show ?thesis by simp
    next
      case (Suc k)
      with j have "k < length as" by simp
      with st Suc show ?thesis by simp
    qed
  qed
  from a b c d show ?case by blast
qed

lemma for_groups_chain:
  "for_groups body gs h = Inr (gs', h') \<Longrightarrow>
   \<exists>hs. length hs = Suc (length gs) \<and> hs ! 0 = h \<and> hs ! length gs = h'
      \<and> (\<forall>i<length gs. body (gs ! i) (hs ! i) = Inr (gs' ! i, hs ! Suc i))"
proof (induction gs arbitrary: h gs')
  case Nil
  then have "length [h] = Suc (length ([]::param_group list)) \<and> [h] ! 0 = h
      \<and> [h] ! length ([]::param_group list) = h'"
    by simp
  then show ?case by (intro exI [of _ "[h]"]) simp
next
  case (Cons g gs)
  from Cons.prems obtain g1 h1 gs1 where
    1: "body g h = Inr (g1, h1)" and
    2: "for_groups body gs h1 = Inr (gs1, h')" and
    3: "gs' = g1 # gs1"
    by (auto split: sum.splits)
  from Cons.IH [OF 2] obtain hs where
    len: "length hs = Suc (length gs)" and
    p0: "hs ! 0 = h1" and
    pn: "hs ! length gs = h'" and
    st: "\<forall>i<length gs. body (gs ! i) (hs ! i) = Inr (gs1 ! i, hs ! Suc i)"
    by blast
  let ?hs = "h # hs"
  have a: "length ?hs = Suc (length (g # gs))" using len by simp
  have b: "?hs ! 0 = h" by simp
  have c: "?hs ! length (g # gs) = h'" using pn by simp
  have d: "\<forall>i<length (g # gs). body ((g # gs) ! i) (?hs ! i) = Inr (gs' ! i, ?hs ! Suc i)"
  proof (intro allI impI)
    fix i assume i: "i < length (g # gs)"
    show "body ((g # gs) ! i) (?hs ! i) = Inr (gs' ! i, ?hs ! Suc i)"
    proof (cases i)
      case 0
      with 1 3 p0 show ?thesis by simp
    next
      case (Suc k)
      with i have "k < length gs" by simp
      with st Suc 3 show ?thesis by simp
    qed
  qed
  from a b c d show ?case by blast
qed

lemma constructor_chain:
  assumes fg: "for_groups init_group gs h = Inr (gs', h')"
  shows "\<exists>hs. length hs = Suc (length gs) \<and> hs ! 0 = h \<and> hs ! length gs = h'
      \<and> (\<forall>i<length gs.
            ((gs ! i) ''schedules'' = None \<longrightarrow> gs' ! i = gs ! i \<and> hs ! Suc i = hs ! i)
          \<and> ((gs ! i) ''schedules'' \<noteq> None \<longrightarrow>
               (\<exists>ps. length ps = Suc (length (group_schedules (gs ! i)))
                   \<and> ps ! 0 = ((gs ! i)(''schedules'' \<mapsto> SchedList (group_schedules (gs ! i))),
                               hs ! i)
                   \<and> ps ! length (group_schedules (gs ! i)) = (gs' ! i, hs ! Suc i)
                   \<and> (\<forall>j<length (group_schedules (gs ! i)).
                         \<exists>s'. schedule_step (snd (ps ! j) (group_schedules (gs ! i) ! j))
                                 (fst (ps ! j))
                               = Inr (s', fst (ps ! Suc j))
                            \<and> snd (ps ! Suc j)
                               = (snd (ps ! j))(group_schedules (gs ! i) ! j := s')))))"
proof -
  from for_groups_chain [OF fg] obtain hs where
    len: "length hs = Suc (length gs)" and
    p0: "hs ! 0 = h" and
    pn: "hs ! length gs = h'" and
    st: "\<forall>i<length gs. init_group (gs ! i) (hs ! i) = Inr (gs' ! i, hs ! Suc i)"
    by blast
  have "\<forall>i<length gs.
            ((gs ! i) ''schedules'' = None \<longrightarrow> gs' ! i = gs ! i \<and> hs ! Suc i = hs ! i)
          \<and> ((gs ! i) ''schedules'' \<noteq> None \<longrightarrow>
               (\<exists>ps. length ps = Suc (length (group_schedules (gs ! i)))
                   \<and> ps ! 0 = ((gs ! i)(''schedules'' \<mapsto> SchedList (group_schedules (gs ! i))),
                               hs ! i)
                   \<and> ps ! length (group_schedules (gs ! i)) = (gs' ! i, hs ! Suc i)
                   \<and> (\<forall>j<length (group_schedules (gs ! i)).
                         \<exists>s'. schedule_step (snd (ps ! j) (group_schedules (gs ! i) ! j))
                                 (fst (ps ! j))
                               = Inr (s', fst (ps ! Suc j))
                            \<and> snd (ps ! Suc j)
                               = (snd (ps ! j))(group_schedules (gs ! i) ! j := s'))))"
  proof (intro allI impI conjI)
    fix i assume i: "i < length gs" and n: "(gs ! i) ''schedules'' = None"
    from st i have "init_group (gs ! i) (hs ! i) = Inr (gs' ! i, hs ! Suc i)" by blast
    from init_group_cases [OF this] n show "gs' ! i = gs ! i" by blast
  next
    fix i assume i: "i < length gs" and n: "(gs ! i) ''schedules'' = None"
    from st i have "init_group (gs ! i) (hs ! i) = Inr (gs' ! i, hs ! Suc i)" by blast
    from init_group_cases [OF this] n show "hs ! Suc i = hs ! i" by blast
  next
    fix i assume i: "i < length gs" and n: "(gs ! i) ''schedules'' \<noteq> None"
    from st i have "init_group (gs ! i) (hs ! i) = Inr (gs' ! i, hs ! Suc i)" by blast
    from init_group_cases [OF this] n
    have "step_schedules (group_schedules (gs ! i))
            ((gs ! i)(''schedules'' \<mapsto> SchedList (group_schedules (gs ! i)))) (hs ! i)
          = Inr (gs' ! i, hs ! Suc i)"
      by blast
    then show "\<exists>ps. length ps = Suc (length (group_schedules (gs ! i)))
                   \<and> ps ! 0 = ((gs ! i)(''schedules'' \<mapsto> SchedList (group_schedules (gs ! i))),
                               hs ! i)
                   \<and> ps ! length (group_schedules (gs ! i)) = (gs' ! i, hs ! Suc i)
                   \<and> (\<forall>j<length (group_schedules (gs ! i)).
                         \<exists>s'. schedule_step (snd (ps ! j) (group_schedules (gs ! i) ! j))
                                 (fst (ps ! j))
                               = Inr (s', fst (ps ! Suc j))
                            \<and> snd (ps ! Suc j)
                               = (snd (ps ! j))(group_schedules (gs ! i) ! j := s'))"
      by (rule step_schedules_chain)
  qed
  with len p0 pn show ?thesis by blast
qed

text \<open>
  Claim C4, as the code has it. A successful construction keeps the number of groups and
  calls \<^verbatim>\<open>step\<close> once per attachment: the index of every schedule object has advanced
  by the number of its attachments over all groups. The groups are visited in group order:
  there is a chain of stores, from the store before construction to the store after it,
  with one link per group. A group without a \<^verbatim>\<open>schedules\<close> entry is left as it was and
  leaves the store as it was. A group with one starts from the group with \<^verbatim>\<open>schedules\<close>
  normalised to the list of the attached schedules (a single schedule becoming a list of
  one) and the store the previous group left; its schedules are stepped in attachment
  order, each on the group and the store the previous one left, and what the last one
  leaves is the group after construction and the store for the next group. When no
  schedule object is attached twice, every group is the result of stepping its schedules
  from the state they had before construction; a group with exactly one schedule holds
  what that schedule's \<^verbatim>\<open>step\<close> wrote from its initial state, and every attached schedule
  that started at index 0 is at index 1.
\<close>

theorem constructor_primes:
  assumes ok: "ScheduledOptimizer_init opt h = Inr (self, h')"
  shows "length (param_groups (optim self)) = length (param_groups opt)
       \<and> (\<forall>a. schedule_idx (h' a)
                = schedule_idx (h a) + int (count_list (attached (param_groups opt)) a))
       \<and> (\<exists>hs. length hs = Suc (length (param_groups opt)) \<and> hs ! 0 = h
              \<and> hs ! length (param_groups opt) = h'
              \<and> (\<forall>i<length (param_groups opt).
                    ((param_groups opt ! i) ''schedules'' = None \<longrightarrow>
                       param_groups (optim self) ! i = param_groups opt ! i
                       \<and> hs ! Suc i = hs ! i)
                  \<and> ((param_groups opt ! i) ''schedules'' \<noteq> None \<longrightarrow>
                       (\<exists>ps. length ps = Suc (length (group_schedules (param_groups opt ! i)))
                           \<and> ps ! 0 = ((param_groups opt ! i)
                                          (''schedules'' \<mapsto>
                                             SchedList (group_schedules (param_groups opt ! i))),
                                        hs ! i)
                           \<and> ps ! length (group_schedules (param_groups opt ! i))
                               = (param_groups (optim self) ! i, hs ! Suc i)
                           \<and> (\<forall>j<length (group_schedules (param_groups opt ! i)).
                                 \<exists>s'. schedule_step
                                         (snd (ps ! j) (group_schedules (param_groups opt ! i) ! j))
                                         (fst (ps ! j))
                                       = Inr (s', fst (ps ! Suc j))
                                    \<and> snd (ps ! Suc j)
                                       = (snd (ps ! j))
                                           (group_schedules (param_groups opt ! i) ! j := s'))))))
       \<and> (distinct (attached (param_groups opt)) \<longrightarrow>
            (\<forall>i<length (param_groups opt).
               ((param_groups opt ! i) ''schedules'' = None \<longrightarrow>
                  param_groups (optim self) ! i = param_groups opt ! i)
             \<and> ((param_groups opt ! i) ''schedules'' \<noteq> None \<longrightarrow>
                  (\<exists>hi. step_schedules (group_schedules (param_groups opt ! i))
                          ((param_groups opt ! i)
                             (''schedules'' \<mapsto> SchedList (group_schedules (param_groups opt ! i))))
                          h
                        = Inr (param_groups (optim self) ! i, hi)
                      \<and> (\<forall>a\<in>set (group_schedules (param_groups opt ! i)). h' a = hi a)))
             \<and> (\<forall>a. group_schedules (param_groups opt ! i) = [a] \<longrightarrow>
                    schedule_step (h a) ((param_groups opt ! i)(''schedules'' \<mapsto> SchedList [a]))
                      = Inr (h' a, param_groups (optim self) ! i)))
          \<and> (\<forall>a\<in>set (attached (param_groups opt)).
                schedule_idx (h a) = 0 \<longrightarrow> schedule_idx (h' a) = 1))"
proof -
  let ?gs = "param_groups opt"
  let ?gs' = "param_groups (optim self)"
  from ok have fg: "for_groups init_group ?gs h = Inr (?gs', h')"
    by (auto simp: ScheduledOptimizer_init_def split: sum.splits)
  have len: "length ?gs' = length ?gs"
    by (rule for_groups_length [OF fg])
  have cnt: "\<forall>a. schedule_idx (h' a) = schedule_idx (h a) + int (count_list (attached ?gs) a)"
    using for_groups_init_idx [OF fg] by blast
  have alone: "distinct (attached ?gs) \<longrightarrow>
            (\<forall>i<length ?gs.
               ((?gs ! i) ''schedules'' = None \<longrightarrow> ?gs' ! i = ?gs ! i)
             \<and> ((?gs ! i) ''schedules'' \<noteq> None \<longrightarrow>
                  (\<exists>hi. step_schedules (group_schedules (?gs ! i))
                          ((?gs ! i)(''schedules'' \<mapsto> SchedList (group_schedules (?gs ! i)))) h
                        = Inr (?gs' ! i, hi)
                      \<and> (\<forall>a\<in>set (group_schedules (?gs ! i)). h' a = hi a)))
             \<and> (\<forall>a. group_schedules (?gs ! i) = [a] \<longrightarrow>
                    schedule_step (h a) ((?gs ! i)(''schedules'' \<mapsto> SchedList [a]))
                      = Inr (h' a, ?gs' ! i)))"
  proof (intro impI allI)
    fix i
    assume d: "distinct (attached ?gs)" and i: "i < length ?gs"
    from for_groups_init_alone [OF fg d i] obtain hi where
      1: "init_group (?gs ! i) h = Inr (?gs' ! i, hi)" and
      2: "\<forall>a\<in>set (group_schedules (?gs ! i)). h' a = hi a"
      by blast
    note cases = init_group_cases [OF 1]
    have a: "(?gs ! i) ''schedules'' = None \<longrightarrow> ?gs' ! i = ?gs ! i"
      using cases by auto
    have b: "(?gs ! i) ''schedules'' \<noteq> None \<longrightarrow>
                  (\<exists>hi. step_schedules (group_schedules (?gs ! i))
                          ((?gs ! i)(''schedules'' \<mapsto> SchedList (group_schedules (?gs ! i)))) h
                        = Inr (?gs' ! i, hi)
                      \<and> (\<forall>a\<in>set (group_schedules (?gs ! i)). h' a = hi a))"
      using cases 2 by auto
    have c: "\<forall>a. group_schedules (?gs ! i) = [a] \<longrightarrow>
                    schedule_step (h a) ((?gs ! i)(''schedules'' \<mapsto> SchedList [a]))
                      = Inr (h' a, ?gs' ! i)"
    proof (intro allI impI)
      fix a
      assume one: "group_schedules (?gs ! i) = [a]"
      then have "(?gs ! i) ''schedules'' \<noteq> None"
        by (auto simp: group_schedules_def split: option.splits)
      with cases one have st: "step_schedules [a] ((?gs ! i)(''schedules'' \<mapsto> SchedList [a])) h
                              = Inr (?gs' ! i, hi)"
        by auto
      then obtain s1 where
        s: "schedule_step (h a) ((?gs ! i)(''schedules'' \<mapsto> SchedList [a])) = Inr (s1, ?gs' ! i)"
        and hi: "hi = h(a := s1)"
        by (auto split: sum.splits)
      from 2 one hi have "h' a = s1" by simp
      with s show "schedule_step (h a) ((?gs ! i)(''schedules'' \<mapsto> SchedList [a]))
                      = Inr (h' a, ?gs' ! i)"
        by simp
    qed
    from a b c show "((?gs ! i) ''schedules'' = None \<longrightarrow> ?gs' ! i = ?gs ! i)
             \<and> ((?gs ! i) ''schedules'' \<noteq> None \<longrightarrow>
                  (\<exists>hi. step_schedules (group_schedules (?gs ! i))
                          ((?gs ! i)(''schedules'' \<mapsto> SchedList (group_schedules (?gs ! i)))) h
                        = Inr (?gs' ! i, hi)
                      \<and> (\<forall>a\<in>set (group_schedules (?gs ! i)). h' a = hi a)))
             \<and> (\<forall>a. group_schedules (?gs ! i) = [a] \<longrightarrow>
                    schedule_step (h a) ((?gs ! i)(''schedules'' \<mapsto> SchedList [a]))
                      = Inr (h' a, ?gs' ! i))"
      by blast
  qed
  have fresh: "distinct (attached ?gs) \<longrightarrow>
                 (\<forall>a\<in>set (attached ?gs). schedule_idx (h a) = 0 \<longrightarrow> schedule_idx (h' a) = 1)"
    using cnt by (auto simp: count_list_distinct)
  have chain: "\<exists>hs. length hs = Suc (length ?gs) \<and> hs ! 0 = h \<and> hs ! length ?gs = h'
              \<and> (\<forall>i<length ?gs.
                    ((?gs ! i) ''schedules'' = None \<longrightarrow> ?gs' ! i = ?gs ! i \<and> hs ! Suc i = hs ! i)
                  \<and> ((?gs ! i) ''schedules'' \<noteq> None \<longrightarrow>
                       (\<exists>ps. length ps = Suc (length (group_schedules (?gs ! i)))
                           \<and> ps ! 0 = ((?gs ! i)
                                          (''schedules'' \<mapsto> SchedList (group_schedules (?gs ! i))),
                                        hs ! i)
                           \<and> ps ! length (group_schedules (?gs ! i)) = (?gs' ! i, hs ! Suc i)
                           \<and> (\<forall>j<length (group_schedules (?gs ! i)).
                                 \<exists>s'. schedule_step
                                         (snd (ps ! j) (group_schedules (?gs ! i) ! j))
                                         (fst (ps ! j))
                                       = Inr (s', fst (ps ! Suc j))
                                    \<and> snd (ps ! Suc j)
                                       = (snd (ps ! j))(group_schedules (?gs ! i) ! j := s')))))"
    by (rule constructor_chain [OF fg])
  from alone fresh have last: "distinct (attached ?gs) \<longrightarrow>
            (\<forall>i<length ?gs.
               ((?gs ! i) ''schedules'' = None \<longrightarrow> ?gs' ! i = ?gs ! i)
             \<and> ((?gs ! i) ''schedules'' \<noteq> None \<longrightarrow>
                  (\<exists>hi. step_schedules (group_schedules (?gs ! i))
                          ((?gs ! i)(''schedules'' \<mapsto> SchedList (group_schedules (?gs ! i)))) h
                        = Inr (?gs' ! i, hi)
                      \<and> (\<forall>a\<in>set (group_schedules (?gs ! i)). h' a = hi a)))
             \<and> (\<forall>a. group_schedules (?gs ! i) = [a] \<longrightarrow>
                    schedule_step (h a) ((?gs ! i)(''schedules'' \<mapsto> SchedList [a]))
                      = Inr (h' a, ?gs' ! i)))
          \<and> (\<forall>a\<in>set (attached ?gs). schedule_idx (h a) = 0 \<longrightarrow> schedule_idx (h' a) = 1)"
    by blast
  show ?thesis
    by (rule conjI [OF len conjI [OF cnt conjI [OF chain last]]])
qed

text \<open>
  The example optimizer: its group's learning rate is primed to the start value 0 of the
  example schedule, whose index has advanced to 1.
\<close>

lemma example_group_normal:
  "example_group(''schedules'' \<mapsto> SchedList [0]) = [''lr'' \<mapsto> Num 2, ''schedules'' \<mapsto> SchedList [0]]"
  by (rule ext) (simp add: example_group_def)

lemma primed_twist:
  "[''lr'' \<mapsto> u, ''schedules'' \<mapsto> SchedList [0], ''lr'' \<mapsto> Num v]
     = [''lr'' \<mapsto> Num v, ''schedules'' \<mapsto> SchedList [0]]"
  by (rule ext) simp

lemma example_step_first:
  "LinearSchedule_step example_linear [''lr'' \<mapsto> Num 2, ''schedules'' \<mapsto> SchedList [0]]
     = Inr (example_linear\<lparr>LinearSchedule.max_value := Num 2, LinearSchedule.idx := 1\<rparr>,
            [''lr'' \<mapsto> Num 0, ''schedules'' \<mapsto> SchedList [0]])"
  by (simp add: example_linear_def LinearSchedule_init_def
        LinearSchedule_step_def resolve_max_value_def get_deep_attr_def Let_def py_div_def
        as_num_def set_deep_attr_def primed_twist)

lemma example_step_second:
  "LinearSchedule_step
       (example_linear\<lparr>LinearSchedule.max_value := Num 2, LinearSchedule.idx := 1\<rparr>)
       [''lr'' \<mapsto> Num 2, ''schedules'' \<mapsto> SchedList [0]]
     = Inr (example_linear\<lparr>LinearSchedule.max_value := Num 2, LinearSchedule.idx := 2\<rparr>,
            [''lr'' \<mapsto> Num (2 / 5), ''schedules'' \<mapsto> SchedList [0]])"
  by (simp add: example_linear_def LinearSchedule_init_def
        LinearSchedule_step_def resolve_max_value_def get_deep_attr_def Let_def py_div_def
        as_num_def set_deep_attr_def primed_twist)

lemma example_init_group_first:
  "init_group example_group example_heap
     = Inr ([''lr'' \<mapsto> Num 0, ''schedules'' \<mapsto> SchedList [0]],
            example_heap(0 := Linear (example_linear\<lparr>LinearSchedule.max_value := Num 2,
                                                     LinearSchedule.idx := 1\<rparr>)))"
proof -
  have "example_group ''schedules'' = Some (Sched 0)" by (simp add: example_group_def)
  moreover have "example_heap 0 = Linear example_linear" by (simp add: example_heap_def)
  ultimately show ?thesis
    by (simp add: init_group_def example_group_normal example_step_first)
qed

lemma example_init_group_second:
  "init_group example_group
       (example_heap(0 := Linear (example_linear\<lparr>LinearSchedule.max_value := Num 2,
                                                 LinearSchedule.idx := 1\<rparr>)))
     = Inr ([''lr'' \<mapsto> Num (2 / 5), ''schedules'' \<mapsto> SchedList [0]],
            example_heap(0 := Linear (example_linear\<lparr>LinearSchedule.max_value := Num 2,
                                                     LinearSchedule.idx := 2\<rparr>)))"
proof -
  have "example_group ''schedules'' = Some (Sched 0)" by (simp add: example_group_def)
  then show ?thesis
    by (simp add: init_group_def example_group_normal example_step_second)
qed

theorem constructor_primes_witness:
  "ScheduledOptimizer_init example_optimizer example_heap =
     Inr (\<lparr> optim = example_optimizer\<lparr>param_groups :=
                       [[''lr'' \<mapsto> Num 0, ''schedules'' \<mapsto> SchedList [0]]]\<rparr>,
            ScheduledOptimizer.defaults = Map.empty \<rparr>,
          example_heap(0 := Linear (example_linear\<lparr>LinearSchedule.max_value := Num 2,
                                                   LinearSchedule.idx := 1\<rparr>)))
   \<and> distinct (attached (param_groups example_optimizer))
   \<and> group_schedules (param_groups example_optimizer ! 0) = [0]
   \<and> schedule_idx (example_heap 0) = 0
   \<and> schedule_idx ((example_heap(0 := Linear (example_linear\<lparr>LinearSchedule.max_value := Num 2,
                                                   LinearSchedule.idx := 1\<rparr>))) 0) = 1
   \<and> schedule_step (example_heap 0) (example_group(''schedules'' \<mapsto> SchedList [0]))
       = Inr (Linear (example_linear\<lparr>LinearSchedule.max_value := Num 2,
                                       LinearSchedule.idx := 1\<rparr>),
              [''lr'' \<mapsto> Num 0, ''schedules'' \<mapsto> SchedList [0]])
   \<and> (\<exists>s'. schedule_step (example_heap 0) (example_group(''schedules'' \<mapsto> SchedList [0]))
               = Inr (s', [''lr'' \<mapsto> Num 0, ''schedules'' \<mapsto> SchedList [0]])
           \<and> example_heap(0 := Linear (example_linear\<lparr>LinearSchedule.max_value := Num 2,
                                                      LinearSchedule.idx := 1\<rparr>))
               = example_heap(0 := s'))"
proof -
  let ?w = "\<lparr> optim = example_optimizer\<lparr>param_groups :=
                       [[''lr'' \<mapsto> Num 0, ''schedules'' \<mapsto> SchedList [0]]]\<rparr>,
            ScheduledOptimizer.defaults = Map.empty \<rparr>"
  let ?h = "example_heap(0 := Linear (example_linear\<lparr>LinearSchedule.max_value := Num 2,
                                                   LinearSchedule.idx := 1\<rparr>))"
  let ?g' = "[''lr'' \<mapsto> Num 0, ''schedules'' \<mapsto> SchedList [0]]"
  have ini: "ScheduledOptimizer_init example_optimizer example_heap = Inr (?w, ?h)"
    by (simp add: ScheduledOptimizer_init_def example_optimizer_def example_init_group_first)
  have att: "attached (param_groups example_optimizer) = [0]"
    by (simp add: attached_def example_optimizer_def group_schedules_def schedules_of_def
          example_group_def)
  have gs0: "group_schedules (param_groups example_optimizer ! 0) = [0]"
    by (simp add: example_optimizer_def group_schedules_def schedules_of_def example_group_def)
  have d: "distinct (attached (param_groups example_optimizer))"
    by (simp add: att)
  have i0: "schedule_idx (example_heap 0) = 0"
    by (simp add: example_heap_def example_linear_def LinearSchedule_init_def)
  have g0: "param_groups example_optimizer ! 0 = example_group"
    by (simp add: example_optimizer_def)
  have len: "length (param_groups example_optimizer) = 1"
    by (simp add: example_optimizer_def)
  have some: "(param_groups example_optimizer ! 0) ''schedules'' \<noteq> None"
    by (simp add: example_optimizer_def example_group_def)
  have g0': "param_groups (optim ?w) ! 0 = ?g'"
    by simp
  note c4 = constructor_primes [OF ini]
  note alone = c4 [THEN conjunct2, THEN conjunct2, THEN conjunct2, rule_format, OF d]
  from alone have "\<forall>a\<in>set (attached (param_groups example_optimizer)).
      schedule_idx (example_heap a) = 0 \<longrightarrow> schedule_idx (?h a) = 1"
    by (rule conjunct2)
  with att i0 have i1: "schedule_idx (?h 0) = 1" by simp
  from alone have "\<forall>i<length (param_groups example_optimizer).
      \<forall>a. group_schedules (param_groups example_optimizer ! i) = [a] \<longrightarrow>
        schedule_step (example_heap a)
          ((param_groups example_optimizer ! i)(''schedules'' \<mapsto> SchedList [a]))
        = Inr (?h a, param_groups (optim ?w) ! i)"
    by blast
  from this [rule_format, of 0 0] gs0 g0
  have st: "schedule_step (example_heap 0) (example_group(''schedules'' \<mapsto> SchedList [0]))
       = Inr (Linear (example_linear\<lparr>LinearSchedule.max_value := Num 2,
                                       LinearSchedule.idx := 1\<rparr>),
              [''lr'' \<mapsto> Num 0, ''schedules'' \<mapsto> SchedList [0]])"
    by (simp add: example_optimizer_def)
  from c4 [THEN conjunct2, THEN conjunct2, THEN conjunct1] obtain hs where
    h0: "hs ! 0 = example_heap" and
    hn: "hs ! length (param_groups example_optimizer) = ?h" and
    body: "\<forall>i<length (param_groups example_optimizer).
             (param_groups example_optimizer ! i) ''schedules'' \<noteq> None \<longrightarrow>
               (\<exists>ps. ps ! 0 = ((param_groups example_optimizer ! i)
                                  (''schedules'' \<mapsto>
                                     SchedList (group_schedules (param_groups example_optimizer ! i))),
                                hs ! i)
                   \<and> ps ! length (group_schedules (param_groups example_optimizer ! i))
                       = (param_groups (optim ?w) ! i, hs ! Suc i)
                   \<and> (\<forall>j<length (group_schedules (param_groups example_optimizer ! i)).
                         \<exists>s'. schedule_step
                                 (snd (ps ! j) (group_schedules (param_groups example_optimizer ! i) ! j))
                                 (fst (ps ! j))
                               = Inr (s', fst (ps ! Suc j))
                            \<and> snd (ps ! Suc j)
                               = (snd (ps ! j))
                                   (group_schedules (param_groups example_optimizer ! i) ! j := s')))"
    by blast
  from hn len have h1: "hs ! Suc 0 = ?h" by simp
  from body [rule_format, of 0] len some obtain ps where
    p0: "ps ! 0 = ((param_groups example_optimizer ! 0)
                     (''schedules'' \<mapsto>
                        SchedList (group_schedules (param_groups example_optimizer ! 0))),
                   hs ! 0)" and
    pn: "ps ! length (group_schedules (param_groups example_optimizer ! 0))
           = (param_groups (optim ?w) ! 0, hs ! Suc 0)" and
    steps: "\<forall>j<length (group_schedules (param_groups example_optimizer ! 0)).
              \<exists>s'. schedule_step
                      (snd (ps ! j) (group_schedules (param_groups example_optimizer ! 0) ! j))
                      (fst (ps ! j))
                    = Inr (s', fst (ps ! Suc j))
                 \<and> snd (ps ! Suc j)
                    = (snd (ps ! j))
                        (group_schedules (param_groups example_optimizer ! 0) ! j := s')"
    by auto
  from p0 gs0 g0 h0 have p0': "ps ! 0 = (example_group(''schedules'' \<mapsto> SchedList [0]), example_heap)"
    by simp
  from pn gs0 h1 have p1': "ps ! Suc 0 = (?g', ?h)"
    by simp
  from steps [rule_format, of 0] gs0 obtain s' where
    "schedule_step (snd (ps ! 0) 0) (fst (ps ! 0)) = Inr (s', fst (ps ! Suc 0))" and
    "snd (ps ! Suc 0) = (snd (ps ! 0))(0 := s')"
    by auto
  with p0' p1' have
    "schedule_step (example_heap 0) (example_group(''schedules'' \<mapsto> SchedList [0]))
       = Inr (s', ?g')
     \<and> ?h = example_heap(0 := s')"
    by simp
  then have ch: "\<exists>s'. schedule_step (example_heap 0) (example_group(''schedules'' \<mapsto> SchedList [0]))
               = Inr (s', ?g')
           \<and> ?h = example_heap(0 := s')"
    by (rule exI)
  show ?thesis
    by (rule conjI [OF ini conjI [OF d conjI [OF gs0 conjI [OF i0 conjI [OF i1 conjI [OF st ch]]]]]])
qed

text \<open>
  Claim C4 as stated fails when one schedule object is attached to two groups: the
  constructor steps it once per group, so its index ends at 2, and the second group's
  learning rate is primed to 2/5, the value of index 1, not to the value 0 of index 0.
\<close>

theorem constructor_primes_counterexample:
  "ScheduledOptimizer_init example_shared_optimizer example_heap =
     Inr (\<lparr> optim = example_shared_optimizer\<lparr>param_groups :=
                       [[''lr'' \<mapsto> Num 0, ''schedules'' \<mapsto> SchedList [0]],
                        [''lr'' \<mapsto> Num (2 / 5), ''schedules'' \<mapsto> SchedList [0]]]\<rparr>,
            ScheduledOptimizer.defaults = Map.empty \<rparr>,
          example_heap(0 := Linear (example_linear\<lparr>LinearSchedule.max_value := Num 2,
                                                   LinearSchedule.idx := 2\<rparr>)))"
  by (simp add: ScheduledOptimizer_init_def example_shared_optimizer_def
        example_init_group_first example_init_group_second)

section \<open>Saving and restoring the state\<close>

text \<open>
  A schedule that has stepped once has its \<^verbatim>\<open>max_value\<close> resolved; from then on a
  step changes nothing of a linear schedule but its index, and loading a saved state
  copies the saved index.
\<close>

lemma with_idx_twice [simp]: "with_idx (with_idx s i) j = with_idx s j"
  by (cases s) simp_all

lemma with_idx_same [simp]: "with_idx s (schedule_idx s) = s"
  by (cases s) simp_all

lemma schedule_idx_with_idx [simp]: "schedule_idx (with_idx s i) = i"
  by (cases s) simp_all

lemma resolved_with_idx [simp]: "resolved (with_idx s i) = resolved s"
  by (cases s) simp_all

lemma resolved_is_linear: "resolved s \<Longrightarrow> is_linear s"
  by (cases s) simp_all

lemma schedule_load_saved:
  "schedule_load_state_dict s (schedule_state_dict s0) = Inr (with_idx s (schedule_idx s0))"
  by (cases s; cases s0)
     (simp_all add: LinearSchedule_load_state_dict_def LinearSchedule_state_dict_def
        CyclicalLinearSchedule_load_state_dict_def CyclicalLinearSchedule_state_dict_def)

lemma LinearSchedule_step_result:
  "LinearSchedule_step s g = Inr (s', g') \<Longrightarrow>
     \<exists>m v. s' = s\<lparr>LinearSchedule.max_value := Num m,
                  LinearSchedule.idx := LinearSchedule.idx s + 1\<rparr>
          \<and> resolve_max_value (LinearSchedule.max_value s) g (LinearSchedule.path s)
              = Inr (Num m)
          \<and> g' = g(LinearSchedule.path s \<mapsto> Num v)"
  by (auto simp: LinearSchedule_step_def Let_def as_num_def set_deep_attr_def
           split: sum.splits if_splits pyval.splits)

lemma CyclicalLinearSchedule_step_result:
  "CyclicalLinearSchedule_step s g = Inr (s', g') \<Longrightarrow>
     \<exists>v. g' = g(CyclicalLinearSchedule.path s \<mapsto> Num v)"
  by (auto simp: CyclicalLinearSchedule_step_def Let_def as_num_def set_deep_attr_def
           split: sum.splits if_splits pyval.splits)

lemma schedule_step_writes:
  "schedule_step s g = Inr (s', g') \<Longrightarrow> \<exists>p v. g' = g(p \<mapsto> Num v)"
  by (cases s)
     (auto split: sum.splits,
      (blast dest: LinearSchedule_step_result CyclicalLinearSchedule_step_result)+)

lemma schedule_step_entry:
  "schedule_step s g = Inr (s', g') \<Longrightarrow>
     g' ''schedules'' = g ''schedules'' \<or> (\<exists>v. g' ''schedules'' = Some (Num v))"
  by (drule schedule_step_writes) auto

lemma schedule_step_is_linear:
  "schedule_step s g = Inr (s', g') \<Longrightarrow> is_linear s' = is_linear s"
  by (cases s) (auto split: sum.splits)

lemma schedule_step_resolves:
  "schedule_step s g = Inr (s', g') \<Longrightarrow> is_linear s \<Longrightarrow> resolved s'"
  by (cases s) (auto split: sum.splits dest: LinearSchedule_step_result)

lemma schedule_step_resolved:
  "schedule_step s g = Inr (s', g') \<Longrightarrow> resolved s \<Longrightarrow>
     s' = with_idx s (schedule_idx s + 1)"
proof (cases s)
  case (Linear l)
  assume st: "schedule_step s g = Inr (s', g')" and r: "resolved s"
  from r Linear obtain m where m: "LinearSchedule.max_value l = Num m"
    by (auto split: pyval.splits)
  from st Linear obtain l' where l': "LinearSchedule_step l g = Inr (l', g')" and s': "s' = Linear l'"
    by (auto split: sum.splits)
  from LinearSchedule_step_result [OF l'] m
  have "l' = l\<lparr>LinearSchedule.idx := LinearSchedule.idx l + 1\<rparr>"
    by (auto simp: resolve_max_value_def)
  with s' Linear show ?thesis by simp
next
  case (Cyclical c)
  assume "resolved s"
  with Cyclical show ?thesis by simp
qed

lemma step_schedules_resolved:
  "step_schedules as g h = Inr (g', h') \<Longrightarrow> resolved (h a) \<Longrightarrow> resolved (h' a)"
proof (induction as arbitrary: g h)
  case Nil
  then show ?case by simp
next
  case (Cons b as)
  from Cons.prems obtain s1 g1 where
    1: "schedule_step (h b) g = Inr (s1, g1)" and
    2: "step_schedules as g1 (h(b := s1)) = Inr (g', h')"
    by (auto split: sum.splits)
  have "resolved ((h(b := s1)) a)"
    using Cons.prems(2) schedule_step_resolves [OF 1] by (auto dest: resolved_is_linear)
  from Cons.IH [OF 2 this] show ?case .
qed

lemma step_schedules_is_linear:
  "step_schedules as g h = Inr (g', h') \<Longrightarrow> is_linear (h a) \<Longrightarrow> is_linear (h' a)"
proof (induction as arbitrary: g h)
  case Nil
  then show ?case by simp
next
  case (Cons b as)
  from Cons.prems obtain s1 g1 where
    1: "schedule_step (h b) g = Inr (s1, g1)" and
    2: "step_schedules as g1 (h(b := s1)) = Inr (g', h')"
    by (auto split: sum.splits)
  have "is_linear ((h(b := s1)) a)"
    using Cons.prems(2) schedule_step_is_linear [OF 1] by auto
  from Cons.IH [OF 2 this] show ?case .
qed

lemma step_schedules_resolves:
  "step_schedules as g h = Inr (g', h') \<Longrightarrow> a \<in> set as \<Longrightarrow> is_linear (h a) \<Longrightarrow>
     resolved (h' a)"
proof (induction as arbitrary: g h)
  case Nil
  then show ?case by simp
next
  case (Cons b as)
  from Cons.prems obtain s1 g1 where
    1: "schedule_step (h b) g = Inr (s1, g1)" and
    2: "step_schedules as g1 (h(b := s1)) = Inr (g', h')"
    by (auto split: sum.splits)
  show ?case
  proof (cases "a = b")
    case True
    with Cons.prems(3) schedule_step_resolves [OF 1] have "resolved ((h(b := s1)) a)" by simp
    from step_schedules_resolved [OF 2 this] show ?thesis .
  next
    case False
    with Cons.prems have "a \<in> set as" and "is_linear ((h(b := s1)) a)" by auto
    from Cons.IH [OF 2 this] show ?thesis .
  qed
qed

lemma step_schedules_entry:
  "step_schedules as g h = Inr (g', h') \<Longrightarrow>
     g' ''schedules'' = g ''schedules'' \<or> (\<exists>v. g' ''schedules'' = Some (Num v))"
proof (induction as arbitrary: g h)
  case Nil
  then show ?case by simp
next
  case (Cons b as)
  from Cons.prems obtain s1 g1 where
    1: "schedule_step (h b) g = Inr (s1, g1)" and
    2: "step_schedules as g1 (h(b := s1)) = Inr (g', h')"
    by (auto split: sum.splits)
  from Cons.IH [OF 2] schedule_step_entry [OF 1] show ?case by auto
qed

lemma step_schedules_only_idx:
  "step_schedules as g h = Inr (g', h') \<Longrightarrow> \<forall>a\<in>set as. resolved (h a) \<Longrightarrow>
     \<exists>i. h' a = with_idx (h a) i"
proof (induction as arbitrary: g h)
  case Nil
  then have "h' = h" by simp
  then show ?case by (metis with_idx_same)
next
  case (Cons b as)
  from Cons.prems obtain s1 g1 where
    1: "schedule_step (h b) g = Inr (s1, g1)" and
    2: "step_schedules as g1 (h(b := s1)) = Inr (g', h')"
    by (auto split: sum.splits)
  from Cons.prems(2) have rb: "resolved (h b)" by simp
  from schedule_step_resolved [OF 1 rb] have s1: "s1 = with_idx (h b) (schedule_idx (h b) + 1)" .
  have pre: "\<forall>a\<in>set as. resolved ((h(b := s1)) a)"
    using Cons.prems(2) rb s1 by auto
  from Cons.IH [OF 2 pre] obtain i where i: "h' a = with_idx ((h(b := s1)) a) i" by blast
  show ?case
  proof (cases "a = b")
    case True
    with i s1 have "h' a = with_idx (h a) i" by simp
    then show ?thesis by blast
  next
    case False
    with i show ?thesis by auto
  qed
qed

lemma group_schedules_entry:
  "g ''schedules'' = g' ''schedules'' \<Longrightarrow> group_schedules g = group_schedules g'"
  by (simp add: group_schedules_def)

lemma attached_entries:
  "map (\<lambda>g. g ''schedules'') gs = map (\<lambda>g. g ''schedules'') gs' \<Longrightarrow> attached gs = attached gs'"
proof (induction gs arbitrary: gs')
  case Nil
  then show ?case by (simp add: attached_def)
next
  case (Cons g gs)
  then obtain g' gs1 where "gs' = g' # gs1" by (cases gs') auto
  with Cons show ?case by (auto simp: attached_def dest: group_schedules_entry)
qed

lemma stepped_resolved_Cons:
  "stepped_resolved (g # gs) h =
     ((\<forall>as. g ''schedules'' = Some (SchedList as) \<longrightarrow> (\<forall>a\<in>set as. resolved (h a)))
      \<and> stepped_resolved gs h)"
  by (simp add: stepped_resolved_def)

lemma stepped_resolved_entries:
  "map (\<lambda>g. g ''schedules'') gs = map (\<lambda>g. g ''schedules'') gs' \<Longrightarrow>
     stepped_resolved gs h \<Longrightarrow> stepped_resolved gs' h"
proof (induction gs arbitrary: gs')
  case Nil
  then show ?case by (simp add: stepped_resolved_def)
next
  case (Cons g gs)
  from Cons.prems(1) obtain g' gs1 where gs': "gs' = g' # gs1" by (cases gs') auto
  with Cons.prems(1) have e: "g ''schedules'' = g' ''schedules''"
    and m: "map (\<lambda>g. g ''schedules'') gs = map (\<lambda>g. g ''schedules'') gs1"
    by simp_all
  from Cons.prems(2) have "stepped_resolved gs h"
    by (simp add: stepped_resolved_Cons)
  from Cons.IH [OF m this] Cons.prems(2) e gs' show ?case
    by (simp add: stepped_resolved_Cons)
qed

subsection \<open>Construction resolves the attached linear schedules\<close>

lemma init_group_resolved:
  "init_group g h = Inr (g', h') \<Longrightarrow> resolved (h a) \<Longrightarrow> resolved (h' a)"
  by (drule init_group_cases) (auto dest: step_schedules_resolved)

lemma init_group_is_linear:
  "init_group g h = Inr (g', h') \<Longrightarrow> is_linear (h a) \<Longrightarrow> is_linear (h' a)"
  by (drule init_group_cases) (auto dest: step_schedules_is_linear)

lemma init_group_resolves:
  assumes "init_group g h = Inr (g', h')"
      and "\<forall>a\<in>set (group_schedules g). is_linear (h a)"
      and "g' ''schedules'' = Some (SchedList as)" and "a \<in> set as"
  shows "resolved (h' a)"
proof -
  from init_group_cases [OF assms(1)] assms(3)
  have st: "step_schedules (group_schedules g)
              (g(''schedules'' \<mapsto> SchedList (group_schedules g))) h = Inr (g', h')"
    by auto
  from step_schedules_entry [OF st] assms(3) have "as = group_schedules g" by auto
  with assms(2,4) step_schedules_resolves [OF st] show ?thesis by auto
qed

lemma for_groups_init_resolved:
  "for_groups init_group gs h = Inr (gs', h') \<Longrightarrow> resolved (h a) \<Longrightarrow> resolved (h' a)"
proof (induction gs arbitrary: h gs')
  case Nil
  then show ?case by simp
next
  case (Cons g gs)
  from Cons.prems(1) obtain g1 h1 gs1 where
    1: "init_group g h = Inr (g1, h1)" and
    2: "for_groups init_group gs h1 = Inr (gs1, h')"
    by (auto split: sum.splits)
  from Cons.IH [OF 2 init_group_resolved [OF 1 Cons.prems(2)]] show ?case .
qed

lemma for_groups_init_resolves:
  "for_groups init_group gs h = Inr (gs', h') \<Longrightarrow> \<forall>a\<in>set (attached gs). is_linear (h a) \<Longrightarrow>
     stepped_resolved gs' h'"
proof (induction gs arbitrary: h gs')
  case Nil
  then show ?case by (simp add: stepped_resolved_def)
next
  case (Cons g gs)
  from Cons.prems(1) obtain g1 h1 gs1 where
    1: "init_group g h = Inr (g1, h1)" and
    2: "for_groups init_group gs h1 = Inr (gs1, h')" and
    3: "gs' = g1 # gs1"
    by (auto split: sum.splits)
  from Cons.prems(2) have lg: "\<forall>a\<in>set (group_schedules g). is_linear (h a)"
    and lr: "\<forall>a\<in>set (attached gs). is_linear (h a)"
    by (auto simp: attached_def)
  from lr init_group_is_linear [OF 1] have "\<forall>a\<in>set (attached gs). is_linear (h1 a)" by blast
  from Cons.IH [OF 2 this] have rest: "stepped_resolved gs1 h'" .
  have first: "\<forall>as. g1 ''schedules'' = Some (SchedList as) \<longrightarrow> (\<forall>a\<in>set as. resolved (h' a))"
    using init_group_resolves [OF 1 lg] for_groups_init_resolved [OF 2] by blast
  from first rest 3 show ?case by (simp add: stepped_resolved_Cons)
qed

subsection \<open>A step of the wrapper changes nothing of a resolved schedule but its index\<close>

lemma step_group_cases:
  assumes "step_group g h = Inr (g', h')"
  shows "(g ''schedules'' = None \<and> g' = g \<and> h' = h)
       \<or> (\<exists>as. g ''schedules'' = Some (SchedList as) \<and> step_schedules as g h = Inr (g', h'))"
  using assms by (auto simp: step_group_def split: option.splits pyval.splits)

lemma step_group_entry:
  "step_group g h = Inr (g', h') \<Longrightarrow>
     g' ''schedules'' = g ''schedules'' \<or> (\<exists>v. g' ''schedules'' = Some (Num v))"
  by (drule step_group_cases) (auto dest: step_schedules_entry)

lemma step_group_resolved:
  "step_group g h = Inr (g', h') \<Longrightarrow> resolved (h a) \<Longrightarrow> resolved (h' a)"
  by (drule step_group_cases) (auto dest: step_schedules_resolved)

lemma step_group_frame:
  "step_group g h = Inr (g', h') \<Longrightarrow> a \<notin> set (group_schedules g) \<Longrightarrow> h' a = h a"
  by (drule step_group_cases)
     (auto simp: group_schedules_def schedules_of_def dest: step_schedules_frame)

lemma step_group_only_idx:
  assumes "step_group g h = Inr (g', h')"
      and "\<forall>as. g ''schedules'' = Some (SchedList as) \<longrightarrow> (\<forall>a\<in>set as. resolved (h a))"
  shows "\<exists>i. h' a = with_idx (h a) i"
proof -
  from step_group_cases [OF assms(1)] show ?thesis
  proof
    assume "g ''schedules'' = None \<and> g' = g \<and> h' = h"
    then show ?thesis by (metis with_idx_same)
  next
    assume "\<exists>as. g ''schedules'' = Some (SchedList as) \<and> step_schedules as g h = Inr (g', h')"
    then obtain as where e: "g ''schedules'' = Some (SchedList as)"
      and st: "step_schedules as g h = Inr (g', h')" by blast
    from assms(2) e have "\<forall>a\<in>set as. resolved (h a)" by blast
    from step_schedules_only_idx [OF st this] show ?thesis .
  qed
qed

lemma for_groups_step:
  "for_groups step_group gs h = Inr (gs', h') \<Longrightarrow> stepped_resolved gs h \<Longrightarrow>
     list_all2 (\<lambda>g g'. g' ''schedules'' = g ''schedules'' \<or> (\<exists>v. g' ''schedules'' = Some (Num v)))
       gs gs'
     \<and> (\<forall>a. resolved (h a) \<longrightarrow> resolved (h' a))
     \<and> (\<forall>a. \<exists>i. h' a = with_idx (h a) i)
     \<and> (\<forall>a. a \<notin> set (attached gs) \<longrightarrow> h' a = h a)"
proof (induction gs arbitrary: h gs')
  case Nil
  then have "gs' = []" and "h' = h" by simp_all
  moreover have "\<forall>a. \<exists>i. h a = with_idx (h a) i" by (metis with_idx_same)
  ultimately show ?case by simp
next
  case (Cons g gs)
  from Cons.prems(1) obtain g1 h1 gs1 where
    1: "step_group g h = Inr (g1, h1)" and
    2: "for_groups step_group gs h1 = Inr (gs1, h')" and
    3: "gs' = g1 # gs1"
    by (auto split: sum.splits)
  from Cons.prems(2) have pg: "\<forall>as. g ''schedules'' = Some (SchedList as) \<longrightarrow>
                                 (\<forall>a\<in>set as. resolved (h a))"
    and pr: "stepped_resolved gs h"
    by (simp_all add: stepped_resolved_Cons)
  from pr step_group_resolved [OF 1] have "stepped_resolved gs h1"
    unfolding stepped_resolved_def by blast
  from Cons.IH [OF 2 this] have
    ih1: "list_all2 (\<lambda>g g'. g' ''schedules'' = g ''schedules'' \<or> (\<exists>v. g' ''schedules'' = Some (Num v)))
            gs gs1" and
    ih2: "\<forall>a. resolved (h1 a) \<longrightarrow> resolved (h' a)" and
    ih3: "\<forall>a. \<exists>i. h' a = with_idx (h1 a) i" and
    ih4: "\<forall>a. a \<notin> set (attached gs) \<longrightarrow> h' a = h1 a"
    by blast+
  have c1: "list_all2 (\<lambda>g g'. g' ''schedules'' = g ''schedules'' \<or> (\<exists>v. g' ''schedules'' = Some (Num v)))
              (g # gs) gs'"
    using ih1 step_group_entry [OF 1] 3 by simp
  have c2: "\<forall>a. resolved (h a) \<longrightarrow> resolved (h' a)"
    using ih2 step_group_resolved [OF 1] by blast
  have c3: "\<forall>a. \<exists>i. h' a = with_idx (h a) i"
  proof
    fix a
    from step_group_only_idx [OF 1 pg] obtain i where "h1 a = with_idx (h a) i" by blast
    moreover from ih3 obtain j where "h' a = with_idx (h1 a) j" by blast
    ultimately have "h' a = with_idx (h a) j" by simp
    then show "\<exists>i. h' a = with_idx (h a) i" by blast
  qed
  have c4: "\<forall>a. a \<notin> set (attached (g # gs)) \<longrightarrow> h' a = h a"
    using ih4 step_group_frame [OF 1] by (auto simp: attached_def)
  from c1 c2 c3 c4 show ?case by blast
qed

lemma list_all2_entries_eq:
  assumes "list_all2 (\<lambda>g g'. g' ''schedules'' = g ''schedules'' \<or> (\<exists>v. g' ''schedules'' = Some (Num v)))
             gs gs'"
      and "\<forall>g\<in>set gs'. \<exists>as. g ''schedules'' = Some (SchedList as)"
  shows "map (\<lambda>g. g ''schedules'') gs' = map (\<lambda>g. g ''schedules'') gs"
  using assms by (induction gs gs' rule: list_all2_induct) auto

lemma list_all2_entries_resolved:
  assumes "list_all2 (\<lambda>g g'. g' ''schedules'' = g ''schedules'' \<or> (\<exists>v. g' ''schedules'' = Some (Num v)))
             gs gs'"
      and "stepped_resolved gs h"
  shows "stepped_resolved gs' h"
  using assms
  by (induction gs gs' rule: list_all2_induct) (auto simp: stepped_resolved_Cons)

lemma stepped_resolved_mono:
  "stepped_resolved gs h \<Longrightarrow> \<forall>a. resolved (h a) \<longrightarrow> resolved (h' a) \<Longrightarrow> stepped_resolved gs h'"
  unfolding stepped_resolved_def by blast

lemma ScheduledOptimizer_step_effect:
  assumes keep: "keeps_attachments optim_step"
      and st: "ScheduledOptimizer_step optim_step w c h = Inr (r, w1, h1)"
      and res: "stepped_resolved (param_groups (optim w)) h"
  shows "list_all2 (\<lambda>g g'. g' ''schedules'' = g ''schedules'' \<or> (\<exists>v. g' ''schedules'' = Some (Num v)))
           (param_groups (optim w)) (param_groups (optim w1))
       \<and> optimizer.defaults (optim w1) = optimizer.defaults (optim w)
       \<and> ScheduledOptimizer.defaults w1 = ScheduledOptimizer.defaults w
       \<and> stepped_resolved (param_groups (optim w1)) h1
       \<and> (\<forall>a. \<exists>i. h1 a = with_idx (h a) i)
       \<and> (\<forall>a. a \<notin> set (attached (param_groups (optim w))) \<longrightarrow> h1 a = h a)"
proof -
  from st obtain loss opt' gs1 where
    inner: "optim_step (optim w) c = Inr (loss, opt')" and
    fg: "for_groups step_group (param_groups opt') h = Inr (gs1, h1)" and
    w1: "w1 = w\<lparr>optim := opt'\<lparr>param_groups := gs1\<rparr>\<rparr>"
    by (auto simp: ScheduledOptimizer_step_def split: sum.splits)
  from keep inner have
    ent: "map (\<lambda>g. g ''schedules'') (param_groups opt')
            = map (\<lambda>g. g ''schedules'') (param_groups (optim w))" and
    dfl: "optimizer.defaults opt' = optimizer.defaults (optim w)"
    unfolding keeps_attachments_def by blast+
  from stepped_resolved_entries [OF ent [symmetric] res]
  have res': "stepped_resolved (param_groups opt') h" .
  from for_groups_step [OF fg res'] have
    e1: "list_all2 (\<lambda>g g'. g' ''schedules'' = g ''schedules'' \<or> (\<exists>v. g' ''schedules'' = Some (Num v)))
           (param_groups opt') gs1" and
    e2: "\<forall>a. resolved (h a) \<longrightarrow> resolved (h1 a)" and
    e3: "\<forall>a. \<exists>i. h1 a = with_idx (h a) i" and
    e4: "\<forall>a. a \<notin> set (attached (param_groups opt')) \<longrightarrow> h1 a = h a"
    by blast+
  have len: "length (param_groups opt') = length (param_groups (optim w))"
    using ent by (metis length_map)
  have c1: "list_all2 (\<lambda>g g'. g' ''schedules'' = g ''schedules'' \<or> (\<exists>v. g' ''schedules'' = Some (Num v)))
           (param_groups (optim w)) gs1"
    unfolding list_all2_conv_all_nth
  proof (intro conjI allI impI)
    from e1 len show "length (param_groups (optim w)) = length gs1"
      by (simp add: list_all2_lengthD)
  next
    fix i assume i: "i < length (param_groups (optim w))"
    with len have i': "i < length (param_groups opt')" by simp
    from ent have "map (\<lambda>g. g ''schedules'') (param_groups opt') ! i
            = map (\<lambda>g. g ''schedules'') (param_groups (optim w)) ! i" by simp
    with i i' have same: "(param_groups opt' ! i) ''schedules''
                           = (param_groups (optim w) ! i) ''schedules''" by simp
    from e1 i' have "(gs1 ! i) ''schedules'' = (param_groups opt' ! i) ''schedules''
                      \<or> (\<exists>v. (gs1 ! i) ''schedules'' = Some (Num v))"
      by (simp add: list_all2_conv_all_nth)
    with same show "(gs1 ! i) ''schedules'' = (param_groups (optim w) ! i) ''schedules''
                      \<or> (\<exists>v. (gs1 ! i) ''schedules'' = Some (Num v))" by simp
  qed
  have c4: "stepped_resolved gs1 h1"
    using list_all2_entries_resolved [OF e1 res'] e2 by (rule stepped_resolved_mono)
  have c6: "\<forall>a. a \<notin> set (attached (param_groups (optim w))) \<longrightarrow> h1 a = h a"
    using e4 attached_entries [OF ent] by simp
  from c1 dfl c4 e3 c6 w1 show ?thesis by simp
qed

lemma run_steps_effect:
  assumes keep: "keeps_attachments optim_step"
  shows "run_steps optim_step cs w h = Inr (self, hn) \<Longrightarrow>
     \<forall>g\<in>set (param_groups (optim self)). \<exists>as. g ''schedules'' = Some (SchedList as) \<Longrightarrow>
     stepped_resolved (param_groups (optim w)) h \<Longrightarrow>
     map (\<lambda>g. g ''schedules'') (param_groups (optim self))
       = map (\<lambda>g. g ''schedules'') (param_groups (optim w))
     \<and> optimizer.defaults (optim self) = optimizer.defaults (optim w)
     \<and> ScheduledOptimizer.defaults self = ScheduledOptimizer.defaults w
     \<and> (\<forall>a. \<exists>i. hn a = with_idx (h a) i)
     \<and> (\<forall>a. a \<notin> set (attached (param_groups (optim w))) \<longrightarrow> hn a = h a)"
proof (induction cs arbitrary: w h)
  case Nil
  then have "self = w" and "hn = h" by simp_all
  moreover have "\<forall>a. \<exists>i. h a = with_idx (h a) i" by (metis with_idx_same)
  ultimately show ?case by simp
next
  case (Cons c cs)
  from Cons.prems(1) obtain r w1 h1 where
    1: "ScheduledOptimizer_step optim_step w c h = Inr (r, w1, h1)" and
    2: "run_steps optim_step cs w1 h1 = Inr (self, hn)"
    by (auto split: sum.splits)
  from ScheduledOptimizer_step_effect [OF keep 1 Cons.prems(3)] have
    s1: "list_all2 (\<lambda>g g'. g' ''schedules'' = g ''schedules'' \<or> (\<exists>v. g' ''schedules'' = Some (Num v)))
           (param_groups (optim w)) (param_groups (optim w1))" and
    s2: "optimizer.defaults (optim w1) = optimizer.defaults (optim w)" and
    s3: "ScheduledOptimizer.defaults w1 = ScheduledOptimizer.defaults w" and
    s4: "stepped_resolved (param_groups (optim w1)) h1" and
    s5: "\<forall>a. \<exists>i. h1 a = with_idx (h a) i" and
    s6: "\<forall>a. a \<notin> set (attached (param_groups (optim w))) \<longrightarrow> h1 a = h a"
    by blast+
  from Cons.IH [OF 2 Cons.prems(2) s4] have
    i1: "map (\<lambda>g. g ''schedules'') (param_groups (optim self))
           = map (\<lambda>g. g ''schedules'') (param_groups (optim w1))" and
    i2: "optimizer.defaults (optim self) = optimizer.defaults (optim w1)" and
    i3: "ScheduledOptimizer.defaults self = ScheduledOptimizer.defaults w1" and
    i4: "\<forall>a. \<exists>i. hn a = with_idx (h1 a) i" and
    i5: "\<forall>a. a \<notin> set (attached (param_groups (optim w1))) \<longrightarrow> hn a = h1 a"
    by blast+
  have all1: "\<forall>g\<in>set (param_groups (optim w1)). \<exists>as. g ''schedules'' = Some (SchedList as)"
  proof
    fix g assume "g \<in> set (param_groups (optim w1))"
    then have "g ''schedules'' \<in> set (map (\<lambda>g. g ''schedules'') (param_groups (optim self)))"
      unfolding i1 by simp
    then obtain g' where "g' \<in> set (param_groups (optim self))"
      and "g' ''schedules'' = g ''schedules''" by auto
    with Cons.prems(2) show "\<exists>as. g ''schedules'' = Some (SchedList as)" by metis
  qed
  from list_all2_entries_eq [OF s1 all1]
  have e: "map (\<lambda>g. g ''schedules'') (param_groups (optim w1))
             = map (\<lambda>g. g ''schedules'') (param_groups (optim w))" .
  have c4: "\<forall>a. \<exists>i. hn a = with_idx (h a) i"
  proof
    fix a
    from s5 obtain i where "h1 a = with_idx (h a) i" by blast
    moreover from i4 obtain j where "hn a = with_idx (h1 a) j" by blast
    ultimately have "hn a = with_idx (h a) j" by simp
    then show "\<exists>i. hn a = with_idx (h a) i" by blast
  qed
  have c5: "\<forall>a. a \<notin> set (attached (param_groups (optim w))) \<longrightarrow> hn a = h a"
    using i5 s6 attached_entries [OF e] by simp
  from i1 e i2 s2 i3 s3 c4 c5 show ?case by simp
qed

subsection \<open>Restoring the saved state\<close>

lemma load_schedules_saved:
  "load_schedules as (map (\<lambda>a. schedule_state_dict (h a)) as) hc
     = Inr (\<lambda>x. if x \<in> set as then with_idx (hc x) (schedule_idx (h x)) else hc x)"
proof (induction as arbitrary: hc)
  case Nil
  show ?case by simp
next
  case (Cons a as)
  let ?hc = "hc(a := with_idx (hc a) (schedule_idx (h a)))"
  have eq: "(\<lambda>x. if x \<in> set as then with_idx (?hc x) (schedule_idx (h x)) else ?hc x)
        = (\<lambda>x. if x \<in> set (a # as) then with_idx (hc x) (schedule_idx (h x)) else hc x)"
    by (rule ext) simp
  have "load_schedules (a # as) (map (\<lambda>a. schedule_state_dict (h a)) (a # as)) hc
          = load_schedules as (map (\<lambda>a. schedule_state_dict (h a)) as) ?hc"
    by (simp add: schedule_load_saved)
  also have "\<dots> = Inr (\<lambda>x. if x \<in> set as then with_idx (?hc x) (schedule_idx (h x)) else ?hc x)"
    by (rule Cons.IH)
  also have "\<dots> = Inr (\<lambda>x. if x \<in> set (a # as)
                            then with_idx (hc x) (schedule_idx (h x)) else hc x)"
    by (simp only: eq)
  finally show ?case .
qed

lemma restore_group_saved:
  assumes "g ''schedules'' = Some (SchedList as)"
  shows "restore_group (g(''schedules'' := None)) (SchedList as)
           (map (\<lambda>a. schedule_state_dict (h a)) as) (get_lr g) hc
         = Inr (g(''lr'' \<mapsto> get_lr g),
                \<lambda>x. if x \<in> set as then with_idx (hc x) (schedule_idx (h x)) else hc x)"
proof -
  have "(g(''schedules'' := None))(''schedules'' \<mapsto> SchedList as) = g"
    using assms by (auto simp: fun_eq_iff)
  then show ?thesis
    by (simp add: restore_group_def load_schedules_saved)
qed

lemma restore_groups_saved:
  assumes "\<forall>g\<in>set gs. \<exists>as. g ''schedules'' = Some (SchedList as)"
  shows "restore_groups (map (\<lambda>g. g(''schedules'' := None)) gs)
           (map (\<lambda>g. SchedList (group_schedules g)) gs)
           (map (\<lambda>g. map (\<lambda>a. schedule_state_dict (h a)) (group_schedules g)) gs)
           (map get_lr gs) hc
         = Inr (map (\<lambda>g. g(''lr'' \<mapsto> get_lr g)) gs,
                \<lambda>x. if x \<in> set (attached gs) then with_idx (hc x) (schedule_idx (h x)) else hc x)"
  using assms
proof (induction gs arbitrary: hc)
  case Nil
  show ?case by (simp add: attached_def)
next
  case (Cons g gs)
  from Cons.prems obtain as where e: "g ''schedules'' = Some (SchedList as)" by auto
  then have gs: "group_schedules g = as"
    by (simp add: group_schedules_def schedules_of_def)
  let ?h1 = "\<lambda>x. if x \<in> set as then with_idx (hc x) (schedule_idx (h x)) else hc x"
  from Cons.prems have rest: "\<forall>g\<in>set gs. \<exists>as. g ''schedules'' = Some (SchedList as)" by simp
  have heap: "(\<lambda>x. if x \<in> set (attached gs) then with_idx (?h1 x) (schedule_idx (h x)) else ?h1 x)
        = (\<lambda>x. if x \<in> set (attached (g # gs)) then with_idx (hc x) (schedule_idx (h x)) else hc x)"
    by (rule ext) (simp add: attached_def gs)
  have first: "restore_group (g(''schedules'' := None)) (SchedList as)
                 (map (\<lambda>a. schedule_state_dict (h a)) as) (get_lr g) hc
               = Inr (g(''lr'' \<mapsto> get_lr g), ?h1)"
    by (rule restore_group_saved [of g as h hc, OF e])
  have others: "restore_groups (map (\<lambda>g. g(''schedules'' := None)) gs)
           (map (\<lambda>g. SchedList (group_schedules g)) gs)
           (map (\<lambda>g. map (\<lambda>a. schedule_state_dict (h a)) (group_schedules g)) gs)
           (map get_lr gs) ?h1
         = Inr (map (\<lambda>g. g(''lr'' \<mapsto> get_lr g)) gs,
                \<lambda>x. if x \<in> set (attached gs) then with_idx (?h1 x) (schedule_idx (h x)) else ?h1 x)"
    by (rule Cons.IH [OF rest])
  have "restore_groups (map (\<lambda>g. g(''schedules'' := None)) (g # gs))
           (map (\<lambda>g. SchedList (group_schedules g)) (g # gs))
           (map (\<lambda>g. map (\<lambda>a. schedule_state_dict (h a)) (group_schedules g)) (g # gs))
           (map get_lr (g # gs)) hc
         = Inr (map (\<lambda>g. g(''lr'' \<mapsto> get_lr g)) (g # gs),
                \<lambda>x. if x \<in> set (attached gs) then with_idx (?h1 x) (schedule_idx (h x)) else ?h1 x)"
    by (simp add: gs first others)
  then show ?case by (simp only: heap)
qed

lemma collect_get_schedules:
  assumes "\<forall>g\<in>set gs. \<exists>as. g ''schedules'' = Some (SchedList as)"
  shows "collect get_schedules gs = Inr (map (\<lambda>g. SchedList (group_schedules g)) gs)"
  using assms
  by (intro collect_Inr_map)
     (auto simp: get_schedules_def group_schedules_def schedules_of_def)

lemma fill_lr_present:
  "\<forall>g\<in>set gs. g ''lr'' \<noteq> None \<Longrightarrow> map (\<lambda>g. g(''lr'' \<mapsto> get_lr g)) gs = gs"
  by (induction gs) (auto simp: get_lr_def fun_eq_iff)

text \<open>
  Claim C3, as the code has it. Let a wrapper be constructed over an inner optimizer all
  of whose attached schedules are linear, let it take any number of steps, and let
  \<^verbatim>\<open>state_dict()\<close> return a state; the inner optimizer's step is any step that leaves the
  attachments alone. Then \<^verbatim>\<open>load_state_dict\<close> of that state on the freshly constructed
  wrapper (the result of the same construction) succeeds and yields the original wrapper
  and the original store of schedule objects, but for an \<^verbatim>\<open>lr = None\<close> entry added to a
  group that had no \<^verbatim>\<open>lr\<close>. When every group has an \<^verbatim>\<open>lr\<close> entry, a condition the claim
  does not state, the restored wrapper and store are the original ones, so every later
  sequence of steps does from the restored wrapper what it does from the original one:
  the saved index of each schedule is all the state the round trip needs.
\<close>

theorem state_round_trip:
  assumes keep: "keeps_attachments optim_step"
      and lin: "\<forall>a\<in>set (attached (param_groups opt0)). is_linear (h0 a)"
      and init: "ScheduledOptimizer_init opt0 h0 = Inr (fresh, hf)"
      and run: "run_steps optim_step cs fresh hf = Inr (self, h)"
      and sd: "ScheduledOptimizer_state_dict self h = Inr sd"
  shows "ScheduledOptimizer_load_state_dict fresh sd hf =
           Inr (self\<lparr>optim := (optim self)\<lparr>param_groups :=
                  map (\<lambda>g. g(''lr'' \<mapsto> get_lr g)) (param_groups (optim self))\<rparr>\<rparr>, h)
       \<and> ((\<forall>g\<in>set (param_groups (optim self)). g ''lr'' \<noteq> None) \<longrightarrow>
            ScheduledOptimizer_load_state_dict fresh sd hf = Inr (self, h)
            \<and> (\<forall>cs' w' h'. ScheduledOptimizer_load_state_dict fresh sd hf = Inr (w', h') \<longrightarrow>
                  run_steps optim_step cs' w' h' = run_steps optim_step cs' self h))"
proof -
  let ?gs = "param_groups (optim self)"
  let ?gf = "param_groups (optim fresh)"
  let ?fill = "map (\<lambda>g. g(''lr'' \<mapsto> get_lr g)) ?gs"
  from init have fg: "for_groups init_group (param_groups opt0) h0 = Inr (?gf, hf)"
    by (auto simp: ScheduledOptimizer_init_def split: sum.splits)
  from for_groups_init_resolves [OF fg lin] have res: "stepped_resolved ?gf hf" .
  from sd have all: "\<forall>g\<in>set ?gs. \<exists>as. g ''schedules'' = Some (SchedList as)"
    using state_dict_Inr_iff [of self h] by blast
  from run_steps_effect [OF keep run all res] have
    ent: "map (\<lambda>g. g ''schedules'') ?gs = map (\<lambda>g. g ''schedules'') ?gf" and
    d1: "optimizer.defaults (optim self) = optimizer.defaults (optim fresh)" and
    d2: "ScheduledOptimizer.defaults self = ScheduledOptimizer.defaults fresh" and
    idx: "\<forall>a. \<exists>i. h a = with_idx (hf a) i" and
    frame: "\<forall>a. a \<notin> set (attached ?gf) \<longrightarrow> h a = hf a"
    by blast+
  have att: "attached ?gs = attached ?gf" by (rule attached_entries [OF ent])
  have len: "length ?gs = length ?gf" using ent by (metis length_map)
  have allf: "\<forall>g\<in>set ?gf. \<exists>as. g ''schedules'' = Some (SchedList as)"
  proof
    fix g assume "g \<in> set ?gf"
    then have "g ''schedules'' \<in> set (map (\<lambda>g. g ''schedules'') ?gs)"
      unfolding ent by simp
    then obtain g' where "g' \<in> set ?gs" and "g' ''schedules'' = g ''schedules''" by auto
    with all show "\<exists>as. g ''schedules'' = Some (SchedList as)" by metis
  qed
  have lists: "map (\<lambda>g. SchedList (group_schedules g)) ?gf
                 = map (\<lambda>g. SchedList (group_schedules g)) ?gs"
  proof (rule nth_equalityI)
    show "length (map (\<lambda>g. SchedList (group_schedules g)) ?gf)
            = length (map (\<lambda>g. SchedList (group_schedules g)) ?gs)"
      using len by simp
  next
    fix i assume "i < length (map (\<lambda>g. SchedList (group_schedules g)) ?gf)"
    then have i: "i < length ?gf" by simp
    with len have i': "i < length ?gs" by simp
    from ent have "map (\<lambda>g. g ''schedules'') ?gs ! i = map (\<lambda>g. g ''schedules'') ?gf ! i"
      by simp
    with i i' have "(?gs ! i) ''schedules'' = (?gf ! i) ''schedules''" by simp
    then have "group_schedules (?gs ! i) = group_schedules (?gf ! i)"
      by (rule group_schedules_entry)
    with i i' show "map (\<lambda>g. SchedList (group_schedules g)) ?gf ! i
                      = map (\<lambda>g. SchedList (group_schedules g)) ?gs ! i"
      by simp
  qed
  have heap: "(\<lambda>x. if x \<in> set (attached ?gs) then with_idx (hf x) (schedule_idx (h x)) else hf x)
                = h"
  proof (rule ext)
    fix x
    from idx obtain i where i: "h x = with_idx (hf x) i" by blast
    then have "schedule_idx (h x) = i" by simp
    with i have "with_idx (hf x) (schedule_idx (h x)) = h x" by simp
    with frame att
    show "(if x \<in> set (attached ?gs) then with_idx (hf x) (schedule_idx (h x)) else hf x) = h x"
      by simp
  qed
  have sdv: "sd = [''optim'' \<mapsto> OptimState
                  \<lparr> sd_state = state (optim self),
                    sd_param_groups = map (\<lambda>g. g(''schedules'' := None)) ?gs \<rparr>,
                ''lr'' \<mapsto> LrList (map get_lr ?gs),
                ''schedules'' \<mapsto> ScheduleStates
                  (map (\<lambda>g. map (\<lambda>a. schedule_state_dict (h a)) (group_schedules g)) ?gs)]"
    using state_dict_eq [OF all, of h] sd by simp
  have coll: "collect get_schedules ?gf = Inr (map (\<lambda>g. SchedList (group_schedules g)) ?gs)"
    using collect_get_schedules [OF allf] lists by simp
  have inner: "optimizer_load_state_dict (optim fresh)
                 \<lparr> sd_state = state (optim self),
                   sd_param_groups = map (\<lambda>g. g(''schedules'' := None)) ?gs \<rparr>
               = Inr ((optim fresh)\<lparr>param_groups := map (\<lambda>g. g(''schedules'' := None)) ?gs,
                                    state := state (optim self)\<rparr>)"
    using len by (simp add: optimizer_load_state_dict_def)
  have rest: "restore_groups (map (\<lambda>g. g(''schedules'' := None)) ?gs)
           (map (\<lambda>g. SchedList (group_schedules g)) ?gs)
           (map (\<lambda>g. map (\<lambda>a. schedule_state_dict (h a)) (group_schedules g)) ?gs)
           (map get_lr ?gs) hf
         = Inr (?fill, h)"
    using restore_groups_saved [OF all, of h hf] heap by simp
  have main: "ScheduledOptimizer_load_state_dict fresh sd hf
                = Inr (self\<lparr>optim := (optim self)\<lparr>param_groups := ?fill\<rparr>\<rparr>, h)"
    unfolding ScheduledOptimizer_load_state_dict_def sdv
    apply (simp add: coll inner rest)
    apply (insert d1 d2)
    apply (cases fresh; cases self; cases "optim fresh"; cases "optim self")
    apply simp
    done
  have exact: "(\<forall>g\<in>set ?gs. g ''lr'' \<noteq> None) \<longrightarrow>
            ScheduledOptimizer_load_state_dict fresh sd hf = Inr (self, h)
            \<and> (\<forall>cs' w' h'. ScheduledOptimizer_load_state_dict fresh sd hf = Inr (w', h') \<longrightarrow>
                  run_steps optim_step cs' w' h' = run_steps optim_step cs' self h)"
  proof
    assume "\<forall>g\<in>set ?gs. g ''lr'' \<noteq> None"
    from fill_lr_present [OF this] have "?fill = ?gs" .
    with main have "ScheduledOptimizer_load_state_dict fresh sd hf = Inr (self, h)"
      by simp
    then show "ScheduledOptimizer_load_state_dict fresh sd hf = Inr (self, h)
            \<and> (\<forall>cs' w' h'. ScheduledOptimizer_load_state_dict fresh sd hf = Inr (w', h') \<longrightarrow>
                  run_steps optim_step cs' w' h' = run_steps optim_step cs' self h)"
      by simp
  qed
  from main exact show ?thesis by blast
qed

text \<open>
  The example optimizer, constructed, stepped once with inner loss 5 (learning rate 2/5,
  index 2), saved, and restored into the freshly constructed wrapper (learning rate 0,
  index 1): the restored wrapper and store are those that were saved.
\<close>

lemma example_construction:
  "ScheduledOptimizer_init example_optimizer example_heap =
     Inr (\<lparr> optim = example_optimizer\<lparr>param_groups :=
                       [[''lr'' \<mapsto> Num 0, ''schedules'' \<mapsto> SchedList [0]]]\<rparr>,
            ScheduledOptimizer.defaults = Map.empty \<rparr>,
          example_heap(0 := Linear (example_linear\<lparr>LinearSchedule.max_value := Num 2,
                                                   LinearSchedule.idx := 1\<rparr>)))"
  by (simp add: ScheduledOptimizer_init_def example_optimizer_def example_init_group_first)

lemma example_step_run:
  "LinearSchedule_step
       (example_linear\<lparr>LinearSchedule.max_value := Num 2, LinearSchedule.idx := 1\<rparr>)
       [''lr'' \<mapsto> Num 0, ''schedules'' \<mapsto> SchedList [0]]
     = Inr (example_linear\<lparr>LinearSchedule.max_value := Num 2, LinearSchedule.idx := 2\<rparr>,
            [''lr'' \<mapsto> Num (2 / 5), ''schedules'' \<mapsto> SchedList [0]])"
  by (simp add: example_linear_def LinearSchedule_init_def
        LinearSchedule_step_def resolve_max_value_def get_deep_attr_def Let_def py_div_def
        as_num_def set_deep_attr_def primed_twist)

lemma example_run:
  "run_steps example_optim_step [5]
     \<lparr> optim = example_optimizer\<lparr>param_groups :=
                 [[''lr'' \<mapsto> Num 0, ''schedules'' \<mapsto> SchedList [0]]]\<rparr>,
       ScheduledOptimizer.defaults = Map.empty \<rparr>
     (example_heap(0 := Linear (example_linear\<lparr>LinearSchedule.max_value := Num 2,
                                              LinearSchedule.idx := 1\<rparr>)))
   = Inr (\<lparr> optim = example_optimizer\<lparr>param_groups :=
                 [[''lr'' \<mapsto> Num (2 / 5), ''schedules'' \<mapsto> SchedList [0]]]\<rparr>,
            ScheduledOptimizer.defaults = Map.empty \<rparr>,
          example_heap(0 := Linear (example_linear\<lparr>LinearSchedule.max_value := Num 2,
                                                   LinearSchedule.idx := 2\<rparr>)))"
  by (simp add: ScheduledOptimizer_step_def example_optim_step_def step_group_def
        example_step_run example_optimizer_def)

theorem state_round_trip_witness:
  "keeps_attachments example_optim_step
   \<and> attached (param_groups example_optimizer) = [0]
   \<and> is_linear (example_heap 0)
   \<and> ScheduledOptimizer_init example_optimizer example_heap =
       Inr (\<lparr> optim = example_optimizer\<lparr>param_groups :=
                       [[''lr'' \<mapsto> Num 0, ''schedules'' \<mapsto> SchedList [0]]]\<rparr>,
              ScheduledOptimizer.defaults = Map.empty \<rparr>,
            example_heap(0 := Linear (example_linear\<lparr>LinearSchedule.max_value := Num 2,
                                                     LinearSchedule.idx := 1\<rparr>)))
   \<and> run_steps example_optim_step [5]
         \<lparr> optim = example_optimizer\<lparr>param_groups :=
                     [[''lr'' \<mapsto> Num 0, ''schedules'' \<mapsto> SchedList [0]]]\<rparr>,
           ScheduledOptimizer.defaults = Map.empty \<rparr>
         (example_heap(0 := Linear (example_linear\<lparr>LinearSchedule.max_value := Num 2,
                                                  LinearSchedule.idx := 1\<rparr>)))
       = Inr (\<lparr> optim = example_optimizer\<lparr>param_groups :=
                       [[''lr'' \<mapsto> Num (2 / 5), ''schedules'' \<mapsto> SchedList [0]]]\<rparr>,
                ScheduledOptimizer.defaults = Map.empty \<rparr>,
              example_heap(0 := Linear (example_linear\<lparr>LinearSchedule.max_value := Num 2,
                                                       LinearSchedule.idx := 2\<rparr>)))
   \<and> (\<exists>sd. ScheduledOptimizer_state_dict
               \<lparr> optim = example_optimizer\<lparr>param_groups :=
                       [[''lr'' \<mapsto> Num (2 / 5), ''schedules'' \<mapsto> SchedList [0]]]\<rparr>,
                 ScheduledOptimizer.defaults = Map.empty \<rparr>
               (example_heap(0 := Linear (example_linear\<lparr>LinearSchedule.max_value := Num 2,
                                                        LinearSchedule.idx := 2\<rparr>)))
             = Inr sd
           \<and> ScheduledOptimizer_load_state_dict
               \<lparr> optim = example_optimizer\<lparr>param_groups :=
                       [[''lr'' \<mapsto> Num 0, ''schedules'' \<mapsto> SchedList [0]]]\<rparr>,
                 ScheduledOptimizer.defaults = Map.empty \<rparr>
               sd
               (example_heap(0 := Linear (example_linear\<lparr>LinearSchedule.max_value := Num 2,
                                                        LinearSchedule.idx := 1\<rparr>)))
             = Inr (\<lparr> optim = example_optimizer\<lparr>param_groups :=
                       [[''lr'' \<mapsto> Num (2 / 5), ''schedules'' \<mapsto> SchedList [0]]]\<rparr>,
                      ScheduledOptimizer.defaults = Map.empty \<rparr>,
                    example_heap(0 := Linear (example_linear\<lparr>LinearSchedule.max_value := Num 2,
                                                             LinearSchedule.idx := 2\<rparr>))))"
proof -
  let ?fresh = "\<lparr> optim = example_optimizer\<lparr>param_groups :=
                       [[''lr'' \<mapsto> Num 0, ''schedules'' \<mapsto> SchedList [0]]]\<rparr>,
                  ScheduledOptimizer.defaults = Map.empty \<rparr>"
  let ?hf = "example_heap(0 := Linear (example_linear\<lparr>LinearSchedule.max_value := Num 2,
                                                     LinearSchedule.idx := 1\<rparr>))"
  let ?self = "\<lparr> optim = example_optimizer\<lparr>param_groups :=
                       [[''lr'' \<mapsto> Num (2 / 5), ''schedules'' \<mapsto> SchedList [0]]]\<rparr>,
                 ScheduledOptimizer.defaults = Map.empty \<rparr>"
  let ?h = "example_heap(0 := Linear (example_linear\<lparr>LinearSchedule.max_value := Num 2,
                                                    LinearSchedule.idx := 2\<rparr>))"
  have keep: "keeps_attachments example_optim_step"
    by (auto simp: keeps_attachments_def example_optim_step_def)
  have att: "attached (param_groups example_optimizer) = [0]"
    by (simp add: attached_def example_optimizer_def group_schedules_def schedules_of_def
          example_group_def)
  have l0: "is_linear (example_heap 0)"
    by (simp add: example_heap_def)
  from att l0 have lin: "\<forall>a\<in>set (attached (param_groups example_optimizer)).
                          is_linear (example_heap a)"
    by simp
  note init = example_construction
  note run = example_run
  have "\<forall>g\<in>set (param_groups (optim ?self)). \<exists>as. g ''schedules'' = Some (SchedList as)"
    by simp
  then obtain sd where sd: "ScheduledOptimizer_state_dict ?self ?h = Inr sd"
    using state_dict_Inr_iff [of ?self ?h] by blast
  have lr: "\<forall>g\<in>set (param_groups (optim ?self)). g ''lr'' \<noteq> None"
    by simp
  from state_round_trip [OF keep lin init run sd] lr
  have "ScheduledOptimizer_load_state_dict ?fresh sd ?hf = Inr (?self, ?h)"
    by blast
  with sd have "\<exists>sd. ScheduledOptimizer_state_dict ?self ?h = Inr sd
                 \<and> ScheduledOptimizer_load_state_dict ?fresh sd ?hf = Inr (?self, ?h)"
    by blast
  with keep att l0 init run show ?thesis by blast
qed

text \<open>
  A group without an \<^verbatim>\<open>lr\<close> entry, whose schedule over ten steps with five warmup steps
  drives \<^verbatim>\<open>momentum\<close>: construction primes the momentum to 0, a step with inner loss 5
  writes 2/5, and the saved state holds \<^verbatim>\<open>None\<close> as the learning rate of the group;
  restoring it into the freshly constructed wrapper adds the entry \<^verbatim>\<open>lr = None\<close>.
\<close>

lemma momentum_twist:
  "[''momentum'' \<mapsto> u, ''schedules'' \<mapsto> SchedList [0], ''momentum'' \<mapsto> Num v]
     = [''momentum'' \<mapsto> Num v, ''schedules'' \<mapsto> SchedList [0]]"
  by (rule ext) simp

lemma example_momentum_step_first:
  "LinearSchedule_step example_momentum_linear
       [''momentum'' \<mapsto> Num 2, ''schedules'' \<mapsto> SchedList [0]]
     = Inr (example_momentum_linear\<lparr>LinearSchedule.max_value := Num 2,
                                     LinearSchedule.idx := 1\<rparr>,
            [''momentum'' \<mapsto> Num 0, ''schedules'' \<mapsto> SchedList [0]])"
  by (simp add: example_momentum_linear_def LinearSchedule_init_def
        LinearSchedule_step_def resolve_max_value_def get_deep_attr_def Let_def py_div_def
        as_num_def set_deep_attr_def momentum_twist)

lemma example_momentum_step_at:
  "LinearSchedule_step
       (example_momentum_linear\<lparr>LinearSchedule.max_value := Num 2,
                                 LinearSchedule.idx := 1\<rparr>)
       ([''momentum'' \<mapsto> Num 0, ''schedules'' \<mapsto> SchedList [0]])
     = Inr (example_momentum_linear\<lparr>LinearSchedule.max_value := Num 2,
                                     LinearSchedule.idx := 2\<rparr>,
            [''momentum'' \<mapsto> Num (2 / 5), ''schedules'' \<mapsto> SchedList [0]])"
  by (simp add: example_momentum_linear_def LinearSchedule_init_def
        LinearSchedule_step_def resolve_max_value_def get_deep_attr_def Let_def py_div_def
        as_num_def set_deep_attr_def momentum_twist)

lemma example_momentum_step_next:
  "LinearSchedule_step
       (example_momentum_linear\<lparr>LinearSchedule.max_value := Num 2,
                                 LinearSchedule.idx := 2\<rparr>)
       ([''momentum'' \<mapsto> Num (2 / 5), ''schedules'' \<mapsto> SchedList [0]])
     = Inr (example_momentum_linear\<lparr>LinearSchedule.max_value := Num 2,
                                     LinearSchedule.idx := 3\<rparr>,
            [''momentum'' \<mapsto> Num (4 / 5), ''schedules'' \<mapsto> SchedList [0]])"
  by (simp add: example_momentum_linear_def LinearSchedule_init_def
        LinearSchedule_step_def resolve_max_value_def get_deep_attr_def Let_def py_div_def
        as_num_def set_deep_attr_def momentum_twist)

lemma example_momentum_construction:
  "ScheduledOptimizer_init example_momentum_optimizer example_momentum_heap =
     Inr (\<lparr> optim = example_momentum_optimizer\<lparr>param_groups :=
                       [[''momentum'' \<mapsto> Num 0, ''schedules'' \<mapsto> SchedList [0]]]\<rparr>,
            ScheduledOptimizer.defaults = Map.empty \<rparr>,
          example_momentum_heap
            (0 := Linear (example_momentum_linear\<lparr>LinearSchedule.max_value := Num 2,
                                                   LinearSchedule.idx := 1\<rparr>)))"
  by (simp add: ScheduledOptimizer_init_def example_momentum_optimizer_def init_group_def
        example_momentum_heap_def example_momentum_step_first)

lemma example_momentum_run:
  "run_steps example_lr_step [5]
     \<lparr> optim = example_momentum_optimizer\<lparr>param_groups :=
                 [[''momentum'' \<mapsto> Num 0, ''schedules'' \<mapsto> SchedList [0]]]\<rparr>,
       ScheduledOptimizer.defaults = Map.empty \<rparr>
     (example_momentum_heap
        (0 := Linear (example_momentum_linear\<lparr>LinearSchedule.max_value := Num 2,
                                               LinearSchedule.idx := 1\<rparr>)))
   = Inr (\<lparr> optim = example_momentum_optimizer\<lparr>param_groups :=
                 [[''momentum'' \<mapsto> Num (2 / 5), ''schedules'' \<mapsto> SchedList [0]]]\<rparr>,
            ScheduledOptimizer.defaults = Map.empty \<rparr>,
          example_momentum_heap
            (0 := Linear (example_momentum_linear\<lparr>LinearSchedule.max_value := Num 2,
                                                   LinearSchedule.idx := 2\<rparr>)))"
  by (simp add: ScheduledOptimizer_step_def example_lr_step_def step_group_def
        example_momentum_step_at example_momentum_optimizer_def)

lemma example_momentum_saved:
  "ScheduledOptimizer_state_dict
     \<lparr> optim = example_momentum_optimizer\<lparr>param_groups :=
                 [[''momentum'' \<mapsto> Num (2 / 5), ''schedules'' \<mapsto> SchedList [0]]]\<rparr>,
       ScheduledOptimizer.defaults = Map.empty \<rparr>
     (example_momentum_heap
        (0 := Linear (example_momentum_linear\<lparr>LinearSchedule.max_value := Num 2,
                                               LinearSchedule.idx := 2\<rparr>)))
   = Inr [''optim'' \<mapsto> OptimState
            \<lparr> sd_state = (),
              sd_param_groups = [[''momentum'' \<mapsto> Num (2 / 5), ''schedules'' \<mapsto> SchedList [0]]
                                   (''schedules'' := None)] \<rparr>,
          ''lr'' \<mapsto> LrList [NoneV],
          ''schedules'' \<mapsto> ScheduleStates [[[''idx'' \<mapsto> 2]]]]"
  by (simp add: ScheduledOptimizer_state_dict_def Let_def optimizer_state_dict_def
        example_momentum_optimizer_def get_lr_def group_schedule_states_def del_schedules_def
        LinearSchedule_state_dict_def)

lemma example_momentum_restored:
  "ScheduledOptimizer_load_state_dict
     \<lparr> optim = example_momentum_optimizer\<lparr>param_groups :=
                 [[''momentum'' \<mapsto> Num 0, ''schedules'' \<mapsto> SchedList [0]]]\<rparr>,
       ScheduledOptimizer.defaults = Map.empty \<rparr>
     [''optim'' \<mapsto> OptimState
            \<lparr> sd_state = (),
              sd_param_groups = [[''momentum'' \<mapsto> Num (2 / 5), ''schedules'' \<mapsto> SchedList [0]]
                                   (''schedules'' := None)] \<rparr>,
          ''lr'' \<mapsto> LrList [NoneV],
          ''schedules'' \<mapsto> ScheduleStates [[[''idx'' \<mapsto> 2]]]]
     (example_momentum_heap
        (0 := Linear (example_momentum_linear\<lparr>LinearSchedule.max_value := Num 2,
                                               LinearSchedule.idx := 1\<rparr>)))
   = Inr (\<lparr> optim = example_momentum_optimizer\<lparr>param_groups :=
                 [[''momentum'' \<mapsto> Num (2 / 5), ''schedules'' \<mapsto> SchedList [0],
                   ''lr'' \<mapsto> NoneV]]\<rparr>,
            ScheduledOptimizer.defaults = Map.empty \<rparr>,
          example_momentum_heap
            (0 := Linear (example_momentum_linear\<lparr>LinearSchedule.max_value := Num 2,
                                                   LinearSchedule.idx := 2\<rparr>)))"
  by (simp add: ScheduledOptimizer_load_state_dict_def get_schedules_def
        optimizer_load_state_dict_def example_momentum_optimizer_def restore_group_def
        LinearSchedule_load_state_dict_def)

text \<open>
  Claim C3 as stated fails on that group, with an inner step that leaves the attachments
  alone and reads the learning rate: the next step of the original wrapper writes the
  momentum 4/5, while the next step of the restored wrapper finds \<^verbatim>\<open>lr = None\<close>, raises a
  type error and writes nothing.
\<close>

theorem state_round_trip_counterexample:
  "keeps_attachments example_lr_step
   \<and> attached (param_groups example_momentum_optimizer) = [0]
   \<and> is_linear (example_momentum_heap 0)
   \<and> ScheduledOptimizer_init example_momentum_optimizer example_momentum_heap =
       Inr (\<lparr> optim = example_momentum_optimizer\<lparr>param_groups :=
                       [[''momentum'' \<mapsto> Num 0, ''schedules'' \<mapsto> SchedList [0]]]\<rparr>,
              ScheduledOptimizer.defaults = Map.empty \<rparr>,
            example_momentum_heap
              (0 := Linear (example_momentum_linear\<lparr>LinearSchedule.max_value := Num 2,
                                                     LinearSchedule.idx := 1\<rparr>)))
   \<and> run_steps example_lr_step [5]
         \<lparr> optim = example_momentum_optimizer\<lparr>param_groups :=
                     [[''momentum'' \<mapsto> Num 0, ''schedules'' \<mapsto> SchedList [0]]]\<rparr>,
           ScheduledOptimizer.defaults = Map.empty \<rparr>
         (example_momentum_heap
            (0 := Linear (example_momentum_linear\<lparr>LinearSchedule.max_value := Num 2,
                                                   LinearSchedule.idx := 1\<rparr>)))
       = Inr (\<lparr> optim = example_momentum_optimizer\<lparr>param_groups :=
                     [[''momentum'' \<mapsto> Num (2 / 5), ''schedules'' \<mapsto> SchedList [0]]]\<rparr>,
                ScheduledOptimizer.defaults = Map.empty \<rparr>,
              example_momentum_heap
                (0 := Linear (example_momentum_linear\<lparr>LinearSchedule.max_value := Num 2,
                                                       LinearSchedule.idx := 2\<rparr>)))
   \<and> (\<exists>sd. ScheduledOptimizer_state_dict
               \<lparr> optim = example_momentum_optimizer\<lparr>param_groups :=
                     [[''momentum'' \<mapsto> Num (2 / 5), ''schedules'' \<mapsto> SchedList [0]]]\<rparr>,
                 ScheduledOptimizer.defaults = Map.empty \<rparr>
               (example_momentum_heap
                  (0 := Linear (example_momentum_linear\<lparr>LinearSchedule.max_value := Num 2,
                                                         LinearSchedule.idx := 2\<rparr>)))
             = Inr sd
           \<and> ScheduledOptimizer_load_state_dict
               \<lparr> optim = example_momentum_optimizer\<lparr>param_groups :=
                     [[''momentum'' \<mapsto> Num 0, ''schedules'' \<mapsto> SchedList [0]]]\<rparr>,
                 ScheduledOptimizer.defaults = Map.empty \<rparr>
               sd
               (example_momentum_heap
                  (0 := Linear (example_momentum_linear\<lparr>LinearSchedule.max_value := Num 2,
                                                         LinearSchedule.idx := 1\<rparr>)))
             = Inr (\<lparr> optim = example_momentum_optimizer\<lparr>param_groups :=
                         [[''momentum'' \<mapsto> Num (2 / 5), ''schedules'' \<mapsto> SchedList [0],
                           ''lr'' \<mapsto> NoneV]]\<rparr>,
                      ScheduledOptimizer.defaults = Map.empty \<rparr>,
                    example_momentum_heap
                      (0 := Linear (example_momentum_linear\<lparr>LinearSchedule.max_value := Num 2,
                                                             LinearSchedule.idx := 2\<rparr>))))
   \<and> ScheduledOptimizer_step example_lr_step
         \<lparr> optim = example_momentum_optimizer\<lparr>param_groups :=
                     [[''momentum'' \<mapsto> Num (2 / 5), ''schedules'' \<mapsto> SchedList [0]]]\<rparr>,
           ScheduledOptimizer.defaults = Map.empty \<rparr>
         7
         (example_momentum_heap
            (0 := Linear (example_momentum_linear\<lparr>LinearSchedule.max_value := Num 2,
                                                   LinearSchedule.idx := 2\<rparr>)))
       = Inr (None,
              \<lparr> optim = example_momentum_optimizer\<lparr>param_groups :=
                     [[''momentum'' \<mapsto> Num (4 / 5), ''schedules'' \<mapsto> SchedList [0]]]\<rparr>,
                ScheduledOptimizer.defaults = Map.empty \<rparr>,
              example_momentum_heap
                (0 := Linear (example_momentum_linear\<lparr>LinearSchedule.max_value := Num 2,
                                                       LinearSchedule.idx := 3\<rparr>)))
   \<and> ScheduledOptimizer_step example_lr_step
         \<lparr> optim = example_momentum_optimizer\<lparr>param_groups :=
                     [[''momentum'' \<mapsto> Num (2 / 5), ''schedules'' \<mapsto> SchedList [0],
                       ''lr'' \<mapsto> NoneV]]\<rparr>,
           ScheduledOptimizer.defaults = Map.empty \<rparr>
         7
         (example_momentum_heap
            (0 := Linear (example_momentum_linear\<lparr>LinearSchedule.max_value := Num 2,
                                                   LinearSchedule.idx := 2\<rparr>)))
       = Inl TypeError"
proof -
  have keep: "keeps_attachments example_lr_step"
    by (auto simp: keeps_attachments_def example_lr_step_def split: if_splits)
  have att: "attached (param_groups example_momentum_optimizer) = [0]"
    by (simp add: attached_def example_momentum_optimizer_def group_schedules_def
          schedules_of_def)
  have l0: "is_linear (example_momentum_heap 0)"
    by (simp add: example_momentum_heap_def)
  have orig: "ScheduledOptimizer_step example_lr_step
         \<lparr> optim = example_momentum_optimizer\<lparr>param_groups :=
                     [[''momentum'' \<mapsto> Num (2 / 5), ''schedules'' \<mapsto> SchedList [0]]]\<rparr>,
           ScheduledOptimizer.defaults = Map.empty \<rparr>
         7
         (example_momentum_heap
            (0 := Linear (example_momentum_linear\<lparr>LinearSchedule.max_value := Num 2,
                                                   LinearSchedule.idx := 2\<rparr>)))
       = Inr (None,
              \<lparr> optim = example_momentum_optimizer\<lparr>param_groups :=
                     [[''momentum'' \<mapsto> Num (4 / 5), ''schedules'' \<mapsto> SchedList [0]]]\<rparr>,
                ScheduledOptimizer.defaults = Map.empty \<rparr>,
              example_momentum_heap
                (0 := Linear (example_momentum_linear\<lparr>LinearSchedule.max_value := Num 2,
                                                       LinearSchedule.idx := 3\<rparr>)))"
    by (simp add: ScheduledOptimizer_step_def example_lr_step_def step_group_def
          example_momentum_step_next example_momentum_optimizer_def)
  have rest: "ScheduledOptimizer_step example_lr_step
         \<lparr> optim = example_momentum_optimizer\<lparr>param_groups :=
                     [[''momentum'' \<mapsto> Num (2 / 5), ''schedules'' \<mapsto> SchedList [0],
                       ''lr'' \<mapsto> NoneV]]\<rparr>,
           ScheduledOptimizer.defaults = Map.empty \<rparr>
         7
         (example_momentum_heap
            (0 := Linear (example_momentum_linear\<lparr>LinearSchedule.max_value := Num 2,
                                                   LinearSchedule.idx := 2\<rparr>)))
       = Inl TypeError"
    by (simp add: ScheduledOptimizer_step_def example_lr_step_def
          example_momentum_optimizer_def)
  from example_momentum_saved example_momentum_restored
  have trip: "\<exists>sd. ScheduledOptimizer_state_dict
               \<lparr> optim = example_momentum_optimizer\<lparr>param_groups :=
                     [[''momentum'' \<mapsto> Num (2 / 5), ''schedules'' \<mapsto> SchedList [0]]]\<rparr>,
                 ScheduledOptimizer.defaults = Map.empty \<rparr>
               (example_momentum_heap
                  (0 := Linear (example_momentum_linear\<lparr>LinearSchedule.max_value := Num 2,
                                                         LinearSchedule.idx := 2\<rparr>)))
             = Inr sd
           \<and> ScheduledOptimizer_load_state_dict
               \<lparr> optim = example_momentum_optimizer\<lparr>param_groups :=
                     [[''momentum'' \<mapsto> Num 0, ''schedules'' \<mapsto> SchedList [0]]]\<rparr>,
                 ScheduledOptimizer.defaults = Map.empty \<rparr>
               sd
               (example_momentum_heap
                  (0 := Linear (example_momentum_linear\<lparr>LinearSchedule.max_value := Num 2,
                                                         LinearSchedule.idx := 1\<rparr>)))
             = Inr (\<lparr> optim = example_momentum_optimizer\<lparr>param_groups :=
                         [[''momentum'' \<mapsto> Num (2 / 5), ''schedules'' \<mapsto> SchedList [0],
                           ''lr'' \<mapsto> NoneV]]\<rparr>,
                      ScheduledOptimizer.defaults = Map.empty \<rparr>,
                    example_momentum_heap
                      (0 := Linear (example_momentum_linear\<lparr>LinearSchedule.max_value := Num 2,
                                                             LinearSchedule.idx := 2\<rparr>)))"
    by blast
  from keep att l0 example_momentum_construction example_momentum_run trip orig rest
  show ?thesis by blast
qed

end
